theory Spec2Isabelle
  imports Complex_Main
begin

section \<open>Workflow engine: data model\<close>

text \<open>
  Embedding of \<^verbatim>\<open>backend/app/services/workflow_engine.py\<close>.

  A workflow configuration is a JSON document read with \<^verbatim>\<open>dict.get\<close>. Every field the
  engine reads is modelled with the type the engine uses it at; an absent key is
  \<open>None\<close>, as \<^verbatim>\<open>.get\<close> returns it. Node ids and edge endpoints are therefore
  \<open>string option\<close>: the engine compares and hashes them without looking inside.
\<close>

type_synonym ident = "string option"

text \<open>
  A key that the engine reads with a default, \<^verbatim>\<open>config.get(key, default)\<close>: the default
  stands in for an absent key only, and a key that holds \<^verbatim>\<open>null\<close> is read as \<^verbatim>\<open>None\<close>. So
  the two are kept apart.
\<close>

datatype 'a field = Absent | Null | Present 'a

text \<open>\<^verbatim>\<open>config.get(key)\<close>.\<close>

fun field_get :: "'a field \<Rightarrow> 'a option" where
  "field_get Absent = None"
| "field_get Null = None"
| "field_get (Present v) = Some v"

text \<open>\<^verbatim>\<open>config.get(key, default)\<close>; the result \<open>None\<close> is Python's \<^verbatim>\<open>None\<close>.\<close>

fun field_get_default :: "'a \<Rightarrow> 'a field \<Rightarrow> 'a option" where
  "field_get_default d Absent = Some d"
| "field_get_default d Null = None"
| "field_get_default d (Present v) = Some v"

text \<open>
  \<^verbatim>\<open>node.get("data", {}).get("config", {})\<close>: the keys the handlers and the validator read.
  The keys \<^verbatim>\<open>apiKey\<close>, \<^verbatim>\<open>prompt\<close> and \<^verbatim>\<open>systemPrompt\<close> are read without a default, so
  for them absent and \<^verbatim>\<open>null\<close> are the same \<open>None\<close>.
\<close>

record node_config =
  apiKey :: "string option"
  prompt :: "string option"
  model :: "string field"
  temperature :: "rat field"
  maxTokens :: "int field"
  systemPrompt :: "string option"
  topK :: "int field"
  embeddingProvider :: "string field"

text \<open>
  A node: \<open>node_id\<close> is \<^verbatim>\<open>node.get("id")\<close>, \<open>node_type\<close> is \<^verbatim>\<open>node.get("type")\<close>,
  \<open>data_type\<close> is \<^verbatim>\<open>node.get("data", {}).get("type")\<close>.
\<close>

record node =
  node_id :: ident
  node_type :: "string option"
  data_type :: "string option"
  config :: node_config

record edge =
  source :: ident
  target :: ident

record workflow_config =
  workflow_id :: "string option"
  nodes :: "node list"
  edges :: "edge list"

record validation_result =
  valid :: bool
  errors :: "string list"
  warnings :: "string list"

section \<open>Strings\<close>

text \<open>Python's \<^verbatim>\<open>str(x)\<close> inside an f-string, for a value that is a string or \<^verbatim>\<open>None\<close>.\<close>

fun py_str :: "string option \<Rightarrow> string" where
  "py_str None = ''None''"
| "py_str (Some s) = s"

section \<open>The validator\<close>

text \<open>\<^verbatim>\<open>ComponentType\<close>: the values of the enum, in declaration order.\<close>

definition USER_QUERY :: string where "USER_QUERY = ''user_query''"
definition KNOWLEDGE_BASE :: string where "KNOWLEDGE_BASE = ''knowledge_base''"
definition LLM_ENGINE :: string where "LLM_ENGINE = ''llm_engine''"
definition OUTPUT :: string where "OUTPUT = ''output''"
definition WEB_SEARCH :: string where "WEB_SEARCH = ''web_search''"

definition valid_types :: "string list" where
  "valid_types = [USER_QUERY, KNOWLEDGE_BASE, LLM_ENGINE, OUTPUT, WEB_SEARCH]"

text \<open>
  The type a node is validated and dispatched under (lines 48-51 and 226-228): the
  top-level type, unless that is the wrapper marker \<^verbatim>\<open>"custom"\<close>, in which case the type
  nested in \<^verbatim>\<open>data\<close>.
\<close>

definition effective_type :: "node \<Rightarrow> string option" where
  "effective_type n =
     (if node_type n = Some ''custom'' then data_type n else node_type n)"

text \<open>\<^verbatim>\<open>node_type not in valid_types\<close>; \<^verbatim>\<open>None\<close> is in no set of strings.\<close>

definition type_is_valid :: "string option \<Rightarrow> bool" where
  "type_is_valid t = (case t of None \<Rightarrow> False | Some s \<Rightarrow> s \<in> set valid_types)"

text \<open>Lines 46-54: one error per node whose effective type is not a component type.\<close>

fun node_type_errors :: "node list \<Rightarrow> string list" where
  "node_type_errors [] = []"
| "node_type_errors (n # ns) =
     (if type_is_valid (effective_type n) then []
      else [''Invalid node type: '' @ py_str (effective_type n)])
     @ node_type_errors ns"

text \<open>
  Lines 57-66, 82-86 and 165-169: a node counts as being of kind \<open>k\<close> when its top-level
  type or its \<^verbatim>\<open>data.type\<close> is \<open>k\<close>.
\<close>

definition marked_as :: "string \<Rightarrow> node \<Rightarrow> bool" where
  "marked_as k n = (node_type n = Some k \<or> data_type n = Some k)"

definition has_input :: "node list \<Rightarrow> bool" where
  "has_input ns = list_ex (marked_as USER_QUERY) ns"

definition has_output :: "node list \<Rightarrow> bool" where
  "has_output ns = list_ex (marked_as OUTPUT) ns"

text \<open>Lines 74-79: \<open>ids\<close> is the set \<^verbatim>\<open>node_ids\<close>.\<close>

fun edge_errors :: "ident set \<Rightarrow> edge list \<Rightarrow> string list" where
  "edge_errors ids [] = []"
| "edge_errors ids (e # es) =
     (if source e \<in> ids then [] else [''Invalid edge source: '' @ py_str (source e)])
     @ (if target e \<in> ids then [] else [''Invalid edge target: '' @ py_str (target e)])
     @ edge_errors ids es"

text \<open>\<^verbatim>\<open>not config.get("apiKey")\<close>: the key is absent or holds the empty string.\<close>

definition falsy :: "string option \<Rightarrow> bool" where
  "falsy v = (case v of None \<Rightarrow> True | Some s \<Rightarrow> s = [])"

text \<open>Lines 82-90.\<close>

fun api_key_warnings :: "node list \<Rightarrow> string list" where
  "api_key_warnings [] = []"
| "api_key_warnings (n # ns) =
     (if marked_as LLM_ENGINE n \<and> falsy (apiKey (config n))
      then [''LLM node '' @ py_str (node_id n) @ '' missing API key'']
      else [])
     @ api_key_warnings ns"

text \<open>The list \<^verbatim>\<open>errors\<close> at line 92, in the order the appends happen.\<close>

definition validation_errors :: "workflow_config \<Rightarrow> string list" where
  "validation_errors c =
     (if nodes c = [] then [''Workflow must have at least one node''] else [])
     @ node_type_errors (nodes c)
     @ (if has_input (nodes c) then []
        else [''Workflow must have at least one User Query node''])
     @ (if has_output (nodes c) then []
        else [''Workflow must have at least one Output node''])
     @ edge_errors (set (map node_id (nodes c))) (edges c)"

definition validate_workflow :: "workflow_config \<Rightarrow> validation_result" where
  "validate_workflow c =
     \<lparr> valid = (length (validation_errors c) = 0),
       errors = validation_errors c,
       warnings = api_key_warnings (nodes c) \<rparr>"

section \<open>String operations of the handlers\<close>

text \<open>
  A string is the list of the bytes of its UTF-8 encoding. The strings the engine
  searches for and joins with (\<^verbatim>\<open>"gemini"\<close>, \<^verbatim>\<open>"{query}"\<close>, the separators) are ASCII, and
  an ASCII string occurs in an encoded string at the same places as in the string of
  characters.
\<close>

text \<open>\<^verbatim>\<open>sep.join(xs)\<close>.\<close>

fun str_join :: "string \<Rightarrow> string list \<Rightarrow> string" where
  "str_join sep [] = []"
| "str_join sep [x] = x"
| "str_join sep (x # y # ys) = x @ sep @ str_join sep (y # ys)"

text \<open>\<^verbatim>\<open>sub in s\<close> for strings: \<open>sub\<close> occurs in \<open>s\<close> as a contiguous block.\<close>

fun contains :: "string \<Rightarrow> string \<Rightarrow> bool" where
  "contains sub [] = (sub = [])"
| "contains sub (c # cs) = (take (length sub) (c # cs) = sub \<or> contains sub cs)"

text \<open>
  \<^verbatim>\<open>s.replace(old, new)\<close>: every occurrence of \<open>old\<close>, found left to right without
  overlap, is replaced. For the empty \<open>old\<close> Python puts \<open>new\<close> before every character
  and at the end.
\<close>

function str_replace :: "string \<Rightarrow> string \<Rightarrow> string \<Rightarrow> string" where
  "str_replace old new s =
     (if old = [] then new @ concat (map (\<lambda>c. c # new) s)
      else if s = [] then []
      else if take (length old) s = old
        then new @ str_replace old new (drop (length old) s)
        else hd s # str_replace old new (tl s))"
  by pat_completeness auto
termination
  by (relation "measure (\<lambda>(old, new, s). length s)") auto

section \<open>Node results and the execution context\<close>

text \<open>
  The dictionaries the engine stores under a node id, one constructor per dictionary
  literal of the source:
  \<^item> \<open>UserQueryResult content timestamp\<close>: lines 263-267;
  \<^item> \<open>KnowledgeBaseResult documents relevance_scores metadata\<close>: lines 286-291;
  \<^item> \<open>LlmResponse content model timestamp\<close>: lines 337-342;
  \<^item> \<open>WebSearchResult results query message\<close>: lines 353-358;
  \<^item> \<open>OutputResult content timestamp\<close>: lines 374-378;
  \<^item> \<open>ErrorResult error\<close>: line 159, the dictionary \<^verbatim>\<open>{"error": str(result)}\<close>, whose only
    key is \<^verbatim>\<open>"error"\<close>.
\<close>

datatype node_result =
    UserQueryResult string string
  | KnowledgeBaseResult "string list" "rat list" "(string \<times> string) list list"
  | LlmResponse string "string option" string
  | WebSearchResult "string list" string string
  | OutputResult string string
  | ErrorResult string

text \<open>\<^verbatim>\<open>result.get("type")\<close>.\<close>

fun result_type :: "node_result \<Rightarrow> string option" where
  "result_type (UserQueryResult c t) = Some ''user_query''"
| "result_type (KnowledgeBaseResult d s m) = Some ''knowledge_base''"
| "result_type (LlmResponse c m t) = Some ''llm_response''"
| "result_type (WebSearchResult r q m) = Some ''web_search''"
| "result_type (OutputResult c t) = Some ''output''"
| "result_type (ErrorResult e) = None"

text \<open>\<^verbatim>\<open>result.get("content", "")\<close>.\<close>

fun result_content :: "node_result \<Rightarrow> string" where
  "result_content (UserQueryResult c t) = c"
| "result_content (LlmResponse c m t) = c"
| "result_content (OutputResult c t) = c"
| "result_content (KnowledgeBaseResult d s m) = []"
| "result_content (WebSearchResult r q m) = []"
| "result_content (ErrorResult e) = []"

text \<open>\<^verbatim>\<open>result.get("documents")\<close>, with \<^verbatim>\<open>None\<close> read as the empty list (both are falsy).\<close>

fun result_documents :: "node_result \<Rightarrow> string list" where
  "result_documents (KnowledgeBaseResult d s m) = d"
| "result_documents (UserQueryResult c t) = []"
| "result_documents (LlmResponse c m t) = []"
| "result_documents (WebSearchResult r q m) = []"
| "result_documents (OutputResult c t) = []"
| "result_documents (ErrorResult e) = []"

text \<open>\<^verbatim>\<open>"error" in r\<close>.\<close>

fun has_error_key :: "node_result \<Rightarrow> bool" where
  "has_error_key (ErrorResult e) = True"
| "has_error_key (UserQueryResult c t) = False"
| "has_error_key (KnowledgeBaseResult d s m) = False"
| "has_error_key (LlmResponse c m t) = False"
| "has_error_key (WebSearchResult r q m) = False"
| "has_error_key (OutputResult c t) = False"

text \<open>
  \<^verbatim>\<open>context["results"]\<close> is a Python dictionary: it keeps its keys in insertion order, and
  an assignment to a key it already has replaces the value in place.
\<close>

type_synonym results_dict = "(ident \<times> node_result) list"

fun dict_set :: "('k \<times> 'v) list \<Rightarrow> 'k \<Rightarrow> 'v \<Rightarrow> ('k \<times> 'v) list" where
  "dict_set [] k v = [(k, v)]"
| "dict_set ((k', v') # kvs) k v =
     (if k' = k then (k, v) # kvs else (k', v') # dict_set kvs k v)"

definition dict_get :: "('k \<times> 'v) list \<Rightarrow> 'k \<Rightarrow> 'v option" where
  "dict_get d k = map_of d k"

definition dict_keys :: "('k \<times> 'v) list \<Rightarrow> 'k list" where
  "dict_keys d = map fst d"

definition dict_values :: "('k \<times> 'v) list \<Rightarrow> 'v list" where
  "dict_values d = map snd d"

record exec_context =
  user_input :: string
  session_id :: "string option"
  results :: results_dict
  start_time :: string
  end_time :: "string option"
  metadata_workflow_id :: "string option"

section \<open>The collaborators\<close>

datatype provider = OPENAI | GEMINI

text \<open>
  The arguments of \<^verbatim>\<open>LLMService.generate_completion\<close> (lines 327-335); \<open>None\<close> is
  Python's \<^verbatim>\<open>None\<close>.
\<close>

record completion_request =
  req_prompt :: string
  req_provider :: provider
  req_model :: "string option"
  req_temperature :: "rat option"
  req_max_tokens :: "int option"
  req_system_prompt :: "string option"
  req_api_key :: "string option"

text \<open>The arguments of \<^verbatim>\<open>VectorStoreService.search_by_text\<close> (lines 279-284).\<close>

record search_request =
  query_text :: string
  n_results :: "int option"
  search_provider :: "string option"

text \<open>The dictionary \<^verbatim>\<open>search_by_text\<close> returns.\<close>

record search_results =
  sr_documents :: "string list"
  sr_distances :: "rat list"
  sr_metadatas :: "(string \<times> string) list list"

text \<open>
  The engine's environment: the two collaborators, each answering a request with a
  value or with the message of the exception it raises (\<open>Inl\<close>), the reading of the
  clock, and \<^verbatim>\<open>str.lower\<close>, the lower-casing of the Python runtime. The readings of the
  clock are not told apart: no property below compares two timestamps. The lower-casing
  follows the Unicode character database; the engine is described for whatever function
  it is.
\<close>

record env =
  generate_completion :: "completion_request \<Rightarrow> string + string"
  search_by_text :: "search_request \<Rightarrow> string + search_results"
  utcnow :: string
  str_lower :: "string \<Rightarrow> string"

text \<open>A collaborator invocation, as the run makes it.\<close>

datatype call = CompletionCall completion_request | RetrievalCall search_request

text \<open>
  What a handler does: its result, or the message of the exception it raises, and the
  collaborator invocations it makes.
\<close>

type_synonym handler_outcome = "(string + node_result) \<times> call list"

section \<open>The node handlers\<close>

text \<open>Lines 256-267.\<close>

definition execute_user_query :: "env \<Rightarrow> node \<Rightarrow> exec_context \<Rightarrow> handler_outcome" where
  "execute_user_query ev n ctx =
     (Inr (UserQueryResult (user_input ctx) (utcnow ev)), [])"

text \<open>
  Lines 269-291. An exception of the retrieval collaborator leaves the handler as it is
  raised.
\<close>

definition kb_request :: "node \<Rightarrow> exec_context \<Rightarrow> search_request" where
  "kb_request n ctx =
     \<lparr> query_text = user_input ctx,
       n_results = field_get_default 5 (topK (config n)),
       search_provider = field_get_default ''openai'' (embeddingProvider (config n)) \<rparr>"

definition execute_knowledge_base :: "env \<Rightarrow> node \<Rightarrow> exec_context \<Rightarrow> handler_outcome" where
  "execute_knowledge_base ev n ctx =
     (let rq = kb_request n ctx in
      case search_by_text ev rq of
        Inl msg \<Rightarrow> (Inl msg, [RetrievalCall rq])
      | Inr sr \<Rightarrow>
          (Inr (KnowledgeBaseResult (sr_documents sr) (sr_distances sr) (sr_metadatas sr)),
           [RetrievalCall rq]))"

text \<open>Lines 306-310: the first result, in the order of the dictionary, of type knowledge_base.\<close>

definition find_kb_results :: "results_dict \<Rightarrow> node_result option" where
  "find_kb_results rs =
     find (\<lambda>r. result_type r = Some ''knowledge_base'') (dict_values rs)"

text \<open>Lines 313-314: the prompt with the context block in front.\<close>

definition context_prompt :: "string list \<Rightarrow> string \<Rightarrow> string" where
  "context_prompt documents p =
     (let context_docs = str_join ''\<newline>\<newline>'' (take 3 documents)
      in ''Context:\<newline>'' @ context_docs @ ''\<newline>\<newline>Question: '' @ p)"

text \<open>Lines 303-314: the prompt before the template is applied.\<close>

definition kb_prompt :: "exec_context \<Rightarrow> string" where
  "kb_prompt ctx =
     (let p = user_input ctx;
          kb_results = find_kb_results (results ctx)
      in case kb_results of
           None \<Rightarrow> p
         | Some kb \<Rightarrow>
             if result_documents kb \<noteq> [] then context_prompt (result_documents kb) p
             else p)"

text \<open>Lines 317-318: the template, when the configuration has a non-empty one.\<close>

definition llm_prompt :: "node_config \<Rightarrow> exec_context \<Rightarrow> string" where
  "llm_prompt cfg ctx =
     (let p = kb_prompt ctx
      in case prompt cfg of
           None \<Rightarrow> p
         | Some template \<Rightarrow>
             if template \<noteq> [] then str_replace ''{query}'' p template else p)"

text \<open>
  The message of the \<^verbatim>\<open>AttributeError\<close> that \<^verbatim>\<open>None.lower()\<close> raises:
  \<^verbatim>\<open>'NoneType' object has no attribute 'lower'\<close>.
\<close>

definition none_has_no_lower :: string where
  "none_has_no_lower =
     [CHR 0x27] @ ''NoneType'' @ [CHR 0x27] @ '' object has no attribute ''
     @ [CHR 0x27] @ ''lower'' @ [CHR 0x27]"

text \<open>
  Line 322, \<^verbatim>\<open>config.get("model", "").lower()\<close>: the empty name for an absent key, and an
  exception for a key that holds \<^verbatim>\<open>null\<close>.
\<close>

definition model_name :: "env \<Rightarrow> node_config \<Rightarrow> string + string" where
  "model_name ev cfg =
     (case model cfg of
        Absent \<Rightarrow> Inr (str_lower ev [])
      | Null \<Rightarrow> Inl none_has_no_lower
      | Present m \<Rightarrow> Inr (str_lower ev m))"

text \<open>Lines 321-324: the provider.\<close>

definition llm_provider :: "env \<Rightarrow> node_config \<Rightarrow> string + provider" where
  "llm_provider ev cfg =
     (case model_name ev cfg of
        Inl msg \<Rightarrow> Inl msg
      | Inr name \<Rightarrow> Inr (if contains ''gemini'' name then GEMINI else OPENAI))"

text \<open>Lines 327-335: the request, for the provider that was determined.\<close>

definition llm_request :: "node \<Rightarrow> exec_context \<Rightarrow> provider \<Rightarrow> completion_request" where
  "llm_request n ctx p =
     (let cfg = config n in
      \<lparr> req_prompt = llm_prompt cfg ctx,
        req_provider = p,
        req_model = field_get (model cfg),
        req_temperature = field_get_default (7 / 10) (temperature cfg),
        req_max_tokens = field_get_default 1000 (maxTokens cfg),
        req_system_prompt = systemPrompt cfg,
        req_api_key = apiKey cfg \<rparr>)"

text \<open>
  Lines 293-342. The prompt is built first and cannot fail; an exception at line 322
  leaves the handler before the completion collaborator is invoked.
\<close>

definition execute_llm_engine :: "env \<Rightarrow> node \<Rightarrow> exec_context \<Rightarrow> handler_outcome" where
  "execute_llm_engine ev n ctx =
     (case llm_provider ev (config n) of
        Inl msg \<Rightarrow> (Inl msg, [])
      | Inr p \<Rightarrow>
          (let rq = llm_request n ctx p in
           case generate_completion ev rq of
             Inl msg \<Rightarrow> (Inl msg, [CompletionCall rq])
           | Inr response \<Rightarrow>
               (Inr (LlmResponse response (field_get (model (config n))) (utcnow ev)),
                [CompletionCall rq])))"

text \<open>Lines 344-358.\<close>

definition execute_web_search :: "env \<Rightarrow> node \<Rightarrow> exec_context \<Rightarrow> handler_outcome" where
  "execute_web_search ev n ctx =
     (Inr (WebSearchResult [] (user_input ctx) ''Web search integration coming soon''), [])"

text \<open>Lines 368-372: the contents collected by the output handler.\<close>

definition llm_contents :: "results_dict \<Rightarrow> string list" where
  "llm_contents rs =
     map result_content
       (filter (\<lambda>r. result_type r = Some ''llm_response'') (dict_values rs))"

text \<open>Lines 360-378.\<close>

definition execute_output :: "env \<Rightarrow> node \<Rightarrow> exec_context \<Rightarrow> handler_outcome" where
  "execute_output ev n ctx =
     (let output_content = llm_contents (results ctx) in
      (Inr (OutputResult
              (if output_content \<noteq> [] then str_join ''\<newline>\<newline>'' output_content
               else ''No output generated'')
              (utcnow ev)), []))"

text \<open>
  Lines 218-254: the dispatch on the effective type. The \<^verbatim>\<open>except\<close> clause logs and
  raises again, so an exception of a handler is the outcome of the node.
\<close>

definition execute_node :: "env \<Rightarrow> node \<Rightarrow> exec_context \<Rightarrow> handler_outcome" where
  "execute_node ev n ctx =
     (let t = effective_type n in
      if t = Some USER_QUERY then execute_user_query ev n ctx
      else if t = Some KNOWLEDGE_BASE then execute_knowledge_base ev n ctx
      else if t = Some LLM_ENGINE then execute_llm_engine ev n ctx
      else if t = Some WEB_SEARCH then execute_web_search ev n ctx
      else if t = Some OUTPUT then execute_output ev n ctx
      else (Inl (''Unknown node type: '' @ py_str t), []))"

section \<open>The execution graph\<close>

record graph_entry =
  entry_node :: node
  dependencies :: "ident list"
  dependents :: "ident list"

type_synonym execution_graph = "ident \<Rightarrow> graph_entry option"

text \<open>Lines 199-205.\<close>

fun init_graph :: "execution_graph \<Rightarrow> node list \<Rightarrow> execution_graph" where
  "init_graph g [] = g"
| "init_graph g (n # ns) =
     init_graph (g(node_id n \<mapsto> \<lparr> entry_node = n, dependencies = [], dependents = [] \<rparr>)) ns"

text \<open>\<^verbatim>\<open>graph[k]["dependencies"].append(v)\<close> and the same for the dependents, for a key of the graph.\<close>

definition append_dependency :: "execution_graph \<Rightarrow> ident \<Rightarrow> ident \<Rightarrow> execution_graph" where
  "append_dependency g k v =
     (case g k of
        None \<Rightarrow> g
      | Some en \<Rightarrow> g(k \<mapsto> en\<lparr> dependencies := dependencies en @ [v] \<rparr>))"

definition append_dependent :: "execution_graph \<Rightarrow> ident \<Rightarrow> ident \<Rightarrow> execution_graph" where
  "append_dependent g k v =
     (case g k of
        None \<Rightarrow> g
      | Some en \<Rightarrow> g(k \<mapsto> en\<lparr> dependents := dependents en @ [v] \<rparr>))"

text \<open>Lines 208-214.\<close>

fun add_edges :: "execution_graph \<Rightarrow> edge list \<Rightarrow> execution_graph" where
  "add_edges g [] = g"
| "add_edges g (e # es) =
     add_edges
       (if g (source e) \<noteq> None \<and> g (target e) \<noteq> None
        then append_dependent (append_dependency g (target e) (source e)) (source e) (target e)
        else g)
       es"

definition build_execution_graph :: "node list \<Rightarrow> edge list \<Rightarrow> execution_graph" where
  "build_execution_graph ns es = add_edges (init_graph Map.empty ns) es"

text \<open>\<^verbatim>\<open>execution_graph.get(node_id, {}).get("dependencies", [])\<close>.\<close>

definition dependencies_of :: "execution_graph \<Rightarrow> ident \<Rightarrow> ident list" where
  "dependencies_of g k = (case g k of None \<Rightarrow> [] | Some en \<Rightarrow> dependencies en)"

section \<open>The wave loop\<close>

text \<open>
  One entry per iteration of the loop that ran handlers: the nodes of the wave in the
  order of \<^verbatim>\<open>ready_nodes\<close>, the context every handler of the wave was started with, and
  the collaborator invocations of the wave. Within a wave the handlers are coroutines
  gathered at line 152; \<^verbatim>\<open>context["results"]\<close> is written only after the gather
  returns (lines 155-162), so all of them read the same context.
\<close>

record wave =
  wave_nodes :: "node list"
  wave_context :: exec_context
  wave_calls :: "call list"

text \<open>
  The state of the loop: the set \<^verbatim>\<open>executed_nodes\<close> and the context, and two
  observations of the run that the source does not store: the waves so far and
  the number of times the body of the loop was entered.
\<close>

record loop_state =
  executed :: "ident set"
  ctx :: exec_context
  trace :: "wave list"
  iterations :: nat

text \<open>Lines 134-142.\<close>

definition is_ready :: "execution_graph \<Rightarrow> ident set \<Rightarrow> node \<Rightarrow> bool" where
  "is_ready g ex n =
     (node_id n \<notin> ex \<and> list_all (\<lambda>dep. dep \<in> ex) (dependencies_of g (node_id n)))"

definition ready_nodes :: "execution_graph \<Rightarrow> ident set \<Rightarrow> node list \<Rightarrow> node list" where
  "ready_nodes g ex ns = filter (is_ready g ex) ns"

text \<open>Lines 157-161: what is stored for an outcome of \<^verbatim>\<open>gather(..., return_exceptions=True)\<close>.\<close>

fun commit_result :: "string + node_result \<Rightarrow> node_result" where
  "commit_result (Inl msg) = ErrorResult msg"
| "commit_result (Inr r) = r"

text \<open>Lines 155-161, over \<^verbatim>\<open>zip(ready_nodes, results)\<close>.\<close>

fun store_results :: "results_dict \<Rightarrow> (node \<times> handler_outcome) list \<Rightarrow> results_dict" where
  "store_results rs [] = rs"
| "store_results rs ((n, out) # rest) =
     store_results (dict_set rs (node_id n) (commit_result (fst out))) rest"

text \<open>Lines 148-162: one wave.\<close>

definition run_wave :: "env \<Rightarrow> node list \<Rightarrow> loop_state \<Rightarrow> loop_state" where
  "run_wave ev ready st =
     (let outs = map (\<lambda>n. execute_node ev n (ctx st)) ready in
      st\<lparr> executed := executed st \<union> set (map node_id ready),
          ctx := (ctx st)\<lparr> results := store_results (results (ctx st)) (zip ready outs) \<rparr>,
          trace := trace st
            @ [\<lparr> wave_nodes = ready, wave_context = ctx st,
                 wave_calls = concat (map snd outs) \<rparr>] \<rparr>)"

text \<open>Lines 131-162. \<^verbatim>\<open>len(executed_nodes)\<close> is the cardinality of the set.\<close>

function wave_loop :: "env \<Rightarrow> node list \<Rightarrow> execution_graph \<Rightarrow> loop_state \<Rightarrow> loop_state" where
  "wave_loop ev ns g st =
     (if card (executed st) < length ns then
        (let ready = ready_nodes g (executed st) ns;
             st1 = st\<lparr> iterations := Suc (iterations st) \<rparr>
         in if ready = [] then st1 else wave_loop ev ns g (run_wave ev ready st1))
      else st)"
  by pat_completeness auto
termination
proof (relation "measure (\<lambda>(ev, ns, g, st). card (set (map node_id ns) - executed st))")
  show "wf (measure (\<lambda>(ev, ns, g, st). card (set (map node_id ns) - executed st)))"
    by simp
next
  fix ev :: env and ns :: "node list" and g :: execution_graph and st :: loop_state
    and ready :: "node list" and st1 :: loop_state
  assume rdy: "ready = ready_nodes g (executed st) ns"
    and st1: "st1 = st\<lparr> iterations := Suc (iterations st) \<rparr>"
    and ne: "ready \<noteq> []"
  from ne obtain n where n: "n \<in> set ready"
    by (cases ready) auto
  with rdy have n_in: "n \<in> set ns" and n_new: "node_id n \<notin> executed st"
    by (auto simp: ready_nodes_def is_ready_def)
  let ?ids = "set (map node_id ns)"
  let ?ex' = "executed (run_wave ev ready st1)"
  have ex': "?ex' = executed st \<union> set (map node_id ready)"
    by (simp add: run_wave_def st1 Let_def)
  have "?ids - ?ex' \<subset> ?ids - executed st"
  proof
    show "?ids - ?ex' \<subseteq> ?ids - executed st"
      using ex' by auto
    have "node_id n \<in> ?ids - executed st"
      using n_in n_new by auto
    moreover have "node_id n \<notin> ?ids - ?ex'"
      using n ex' by auto
    ultimately show "?ids - ?ex' \<noteq> ?ids - executed st"
      by blast
  qed
  then have "card (?ids - ?ex') < card (?ids - executed st)"
    by (intro psubset_card_mono) auto
  then show "((ev, ns, g, run_wave ev ready st1), (ev, ns, g, st))
      \<in> measure (\<lambda>(ev, ns, g, st). card (set (map node_id ns) - executed st))"
    by simp
qed

section \<open>Running a workflow\<close>

datatype exec_error = InvalidWorkflow "string list"

record execution_summary =
  total_nodes :: nat
  executed_nodes :: nat
  node_errors :: nat

record execution_result =
  exec_output :: "node_result list"
  final_context :: exec_context
  summary :: execution_summary

text \<open>Lines 118-129: the state the loop starts in.\<close>

definition initial_state :: "env \<Rightarrow> workflow_config \<Rightarrow> string \<Rightarrow> string option \<Rightarrow> loop_state" where
  "initial_state ev c ui sid =
     \<lparr> executed = {},
       ctx = \<lparr> user_input = ui, session_id = sid, results = [],
               start_time = utcnow ev, end_time = None,
               metadata_workflow_id = workflow_id c \<rparr>,
       trace = [],
       iterations = 0 \<rparr>"

text \<open>Lines 111-162: the state the loop ends in, for a configuration that was validated.\<close>

definition run_waves :: "env \<Rightarrow> workflow_config \<Rightarrow> string \<Rightarrow> string option \<Rightarrow> loop_state" where
  "run_waves ev c ui sid =
     wave_loop ev (nodes c) (build_execution_graph (nodes c) (edges c))
       (initial_state ev c ui sid)"

text \<open>Lines 165-175.\<close>

fun final_output :: "results_dict \<Rightarrow> node list \<Rightarrow> node_result list" where
  "final_output rs [] = []"
| "final_output rs (n # ns) =
     (case dict_get rs (node_id n) of
        None \<Rightarrow> final_output rs ns
      | Some r \<Rightarrow> r # final_output rs ns)"

text \<open>Lines 164-187.\<close>

definition finish :: "env \<Rightarrow> workflow_config \<Rightarrow> loop_state \<Rightarrow> execution_result" where
  "finish ev c st =
     (let output_nodes = filter (marked_as OUTPUT) (nodes c) in
      \<lparr> exec_output = final_output (results (ctx st)) output_nodes,
        final_context = (ctx st)\<lparr> end_time := Some (utcnow ev) \<rparr>,
        summary =
          \<lparr> total_nodes = length (nodes c),
            executed_nodes = card (executed st),
            node_errors = length (filter has_error_key (dict_values (results (ctx st)))) \<rparr> \<rparr>)"

text \<open>
  Lines 98-187. The second component is what the run did on the way: the waves, with
  the handlers started and the collaborators invoked in each.
\<close>

definition execute_workflow ::
  "env \<Rightarrow> workflow_config \<Rightarrow> string \<Rightarrow> string option \<Rightarrow> (exec_error + execution_result) \<times> wave list"
where
  "execute_workflow ev c ui sid =
     (let validation = validate_workflow c in
      if \<not> valid validation then (Inl (InvalidWorkflow (errors validation)), [])
      else
        (let st = run_waves ev c ui sid in (Inr (finish ev c st), trace st)))"

text \<open>The collaborator invocations of a run, wave by wave.\<close>

definition calls_of :: "wave list \<Rightarrow> call list" where
  "calls_of ws = concat (map wave_calls ws)"

text \<open>The nodes whose handlers a run started.\<close>

definition handlers_of :: "wave list \<Rightarrow> node list" where
  "handlers_of ws = concat (map wave_nodes ws)"

section \<open>Example workflows\<close>

text \<open>A node without a \<^verbatim>\<open>data\<close> entry, and an edge.\<close>

definition empty_config :: node_config where
  "empty_config =
     \<lparr> apiKey = None, prompt = None, model = Absent, temperature = Absent,
       maxTokens = Absent, systemPrompt = None, topK = Absent, embeddingProvider = Absent \<rparr>"

definition plain_node :: "string \<Rightarrow> string \<Rightarrow> node" where
  "plain_node i t =
     \<lparr> node_id = Some i, node_type = Some t, data_type = None, config = empty_config \<rparr>"

definition link :: "string \<Rightarrow> string \<Rightarrow> edge" where
  "link s t = \<lparr> source = Some s, target = Some t \<rparr>"

text \<open>
  \<^verbatim>\<open>str.lower\<close> on the strings of ASCII characters: the letters A-Z go to a-z and the
  other characters stay. The environments below are used on such strings only.
\<close>

definition ascii_lower_char :: "char \<Rightarrow> char" where
  "ascii_lower_char c =
     (let k = (of_char c :: nat) in if 65 \<le> k \<and> k \<le> 90 then char_of (k + 32) else c)"

definition ascii_lower :: "string \<Rightarrow> string" where
  "ascii_lower s = map ascii_lower_char s"

text \<open>A completion collaborator that echoes its prompt, and a retrieval collaborator that fails.\<close>

definition echo_env :: env where
  "echo_env =
     \<lparr> generate_completion = (\<lambda>rq. Inr (''echo: '' @ req_prompt rq)),
       search_by_text = (\<lambda>rq. Inl ''retrieval failed''),
       utcnow = ''2024-01-01T00:00:00'',
       str_lower = ascii_lower \<rparr>"

text \<open>Two user_query nodes and no output node.\<close>

definition two_queries :: workflow_config where
  "two_queries =
     \<lparr> workflow_id = Some ''w1'',
       nodes = [plain_node ''q1'' ''user_query'', plain_node ''q2'' ''user_query''],
       edges = [] \<rparr>"

text \<open>
  The claims' reading of "a node of kind \<open>k\<close> exists", in the specification's vocabulary
  (glossary, effective type): some node's effective type is \<open>k\<close>.
\<close>

definition spec_has_kind :: "string \<Rightarrow> node list \<Rightarrow> bool" where
  "spec_has_kind k ns = list_ex (\<lambda>n. effective_type n = Some k) ns"

text \<open>A single node whose top-level type is output and whose \<^verbatim>\<open>data.type\<close> is user_query.\<close>

definition relabelled :: workflow_config where
  "relabelled =
     \<lparr> workflow_id = None,
       nodes = [\<lparr> node_id = Some ''a'', node_type = Some ''output'',
                  data_type = Some ''user_query'', config = empty_config \<rparr>],
       edges = [] \<rparr>"

text \<open>A node of an unknown type, no output node, and an edge to an id that is not declared.\<close>

definition dangling :: workflow_config where
  "dangling =
     \<lparr> workflow_id = None,
       nodes = [plain_node ''q'' ''user_query'', plain_node ''x'' ''summarizer''],
       edges = [link ''q'' ''zz''] \<rparr>"

text \<open>Contexts and stored results for the handlers.\<close>

definition base_context :: "results_dict \<Rightarrow> exec_context" where
  "base_context rs =
     \<lparr> user_input = ''hi'', session_id = None, results = rs,
       start_time = ''2024-01-01T00:00:00'', end_time = None,
       metadata_workflow_id = None \<rparr>"

definition mixed_results :: results_dict where
  "mixed_results =
     [(Some ''q'', UserQueryResult ''hi'' ''t0''),
      (Some ''l1'', LlmResponse ''A'' None ''t1''),
      (Some ''k0'', KnowledgeBaseResult [] [] []),
      (Some ''x'', ErrorResult ''boom''),
      (Some ''k1'', KnowledgeBaseResult [''d1'', ''d2'', ''d3'', ''d4''] [] []),
      (Some ''l2'', LlmResponse ''B'' None ''t2'')]"



text \<open>
  A user_query node and a node whose top-level type is llm_engine and whose \<^verbatim>\<open>data.type\<close>
  is output; no node has the effective type output.
\<close>

definition marker_only :: workflow_config where
  "marker_only =
     \<lparr> workflow_id = None,
       nodes = [plain_node ''q'' ''user_query'',
                \<lparr> node_id = Some ''x'', node_type = Some ''llm_engine'',
                  data_type = Some ''output'', config = empty_config \<rparr>],
       edges = [link ''q'' ''x''] \<rparr>"

text \<open>The chain user_query, llm_engine, output.\<close>

definition chain3 :: workflow_config where
  "chain3 =
     \<lparr> workflow_id = Some ''w3'',
       nodes = [plain_node ''q'' ''user_query'', plain_node ''l'' ''llm_engine'',
                plain_node ''o'' ''output''],
       edges = [link ''q'' ''l'', link ''l'' ''o''] \<rparr>"

text \<open>
  A valid configuration that stalls: the llm_engine node and the output node depend on
  each other.
\<close>

definition stalled :: workflow_config where
  "stalled =
     \<lparr> workflow_id = Some ''w4'',
       nodes = [plain_node ''q'' ''user_query'', plain_node ''l'' ''llm_engine'',
                plain_node ''o'' ''output''],
       edges = [link ''q'' ''l'', link ''l'' ''o'', link ''o'' ''l''] \<rparr>"

text \<open>The chain user_query, knowledge_base, output.\<close>

definition kb_chain :: workflow_config where
  "kb_chain =
     \<lparr> workflow_id = Some ''w5'',
       nodes = [plain_node ''q'' ''user_query'', plain_node ''k'' ''knowledge_base'',
                plain_node ''o'' ''output''],
       edges = [link ''q'' ''k'', link ''k'' ''o''] \<rparr>"

text \<open>An environment in which both collaborators answer.\<close>

definition answering_env :: env where
  "answering_env =
     \<lparr> generate_completion = (\<lambda>rq. Inr ''answer''),
       search_by_text =
         (\<lambda>rq. Inr \<lparr> sr_documents = [''doc''], sr_distances = [], sr_metadatas = [] \<rparr>),
       utcnow = ''2024-01-01T00:00:00'',
       str_lower = ascii_lower \<rparr>"


section \<open>The invariant of the wave loop\<close>

text \<open>
  The ids of the nodes of a wave, and the ids of the nodes of the first \<open>j\<close> waves of a
  trace.
\<close>

definition wave_ids :: "wave \<Rightarrow> ident set" where
  "wave_ids w = node_id ` set (wave_nodes w)"

definition ids_before :: "wave list \<Rightarrow> nat \<Rightarrow> ident set" where
  "ids_before tr j = (\<Union>w\<in>set (take j tr). wave_ids w)"

text \<open>
  What holds of wave \<open>j\<close> of a trace, \<open>res\<close> being the results stored so far: the context
  the wave was started with has exactly the ids of the earlier waves as keys; the
  dependencies of its nodes are among them; its own ids are new; the results hold, under
  each of its ids, the committed outcome of a node of the wave with that id; and the
  results agree with that context on the ids of the earlier waves.
\<close>

definition wave_inv :: "env \<Rightarrow> execution_graph \<Rightarrow> wave list \<Rightarrow> results_dict \<Rightarrow> nat \<Rightarrow> bool" where
  "wave_inv ev g tr res j \<longleftrightarrow>
     set (dict_keys (results (wave_context (tr ! j)))) = ids_before tr j
     \<and> (\<forall>b\<in>set (wave_nodes (tr ! j)).
           set (dependencies_of g (node_id b)) \<subseteq> ids_before tr j)
     \<and> wave_ids (tr ! j) \<inter> ids_before tr j = {}
     \<and> (\<forall>k\<in>wave_ids (tr ! j).
           \<exists>a\<in>set (wave_nodes (tr ! j)). node_id a = k
             \<and> dict_get res k
                 = Some (commit_result (fst (execute_node ev a (wave_context (tr ! j))))))
     \<and> (\<forall>k\<in>ids_before tr j. dict_get (results (wave_context (tr ! j))) k = dict_get res k)"

text \<open>
  The invariant: the keys of the results are the executed ids, these are the ids of the
  waves so far, every wave is made of declared nodes (with distinct ids when the declared
  ids are distinct), and \<open>wave_inv\<close> holds of every wave.
\<close>

definition loop_inv :: "env \<Rightarrow> node list \<Rightarrow> execution_graph \<Rightarrow> loop_state \<Rightarrow> bool" where
  "loop_inv ev ns g st \<longleftrightarrow>
     set (dict_keys (results (ctx st))) = executed st
     \<and> executed st = ids_before (trace st) (length (trace st))
     \<and> (\<forall>w\<in>set (trace st). set (wave_nodes w) \<subseteq> set ns
           \<and> (distinct (map node_id ns) \<longrightarrow> distinct (map node_id (wave_nodes w))))
     \<and> (\<forall>j<length (trace st). wave_inv ev g (trace st) (results (ctx st)) j)"

section \<open>Auxiliary facts\<close>

subsection \<open>The validator\<close>

lemma node_type_errors_empty:
  "node_type_errors ns = [] \<longleftrightarrow> (\<forall>n\<in>set ns. type_is_valid (effective_type n))"
  by (induction ns) auto

lemma edge_errors_empty:
  "edge_errors ids es = [] \<longleftrightarrow> (\<forall>e\<in>set es. source e \<in> ids \<and> target e \<in> ids)"
  by (induction es) auto

lemma edge_errors_source:
  "e \<in> set es \<Longrightarrow> source e \<notin> ids \<Longrightarrow>
     ''Invalid edge source: '' @ py_str (source e) \<in> set (edge_errors ids es)"
  by (induction es) auto

lemma edge_errors_target:
  "e \<in> set es \<Longrightarrow> target e \<notin> ids \<Longrightarrow>
     ''Invalid edge target: '' @ py_str (target e) \<in> set (edge_errors ids es)"
  by (induction es) auto

lemma type_is_valid_iff:
  "type_is_valid t \<longleftrightarrow>
     t \<in> Some ` {''user_query'', ''knowledge_base'', ''llm_engine'', ''web_search'', ''output''}"
  by (cases t)
    (auto simp: type_is_valid_def valid_types_def USER_QUERY_def KNOWLEDGE_BASE_def
      LLM_ENGINE_def OUTPUT_def WEB_SEARCH_def)

lemma has_input_iff:
  "has_input ns \<longleftrightarrow>
     (\<exists>n\<in>set ns. node_type n = Some ''user_query'' \<or> data_type n = Some ''user_query'')"
  by (simp add: has_input_def list_ex_iff marked_as_def USER_QUERY_def)

lemma has_output_iff:
  "has_output ns \<longleftrightarrow>
     (\<exists>n\<in>set ns. node_type n = Some ''output'' \<or> data_type n = Some ''output'')"
  by (simp add: has_output_def list_ex_iff marked_as_def OUTPUT_def)

lemma valid_iff:
  "valid (validate_workflow c) \<longleftrightarrow>
     nodes c \<noteq> []
     \<and> (\<forall>n\<in>set (nodes c). type_is_valid (effective_type n))
     \<and> has_input (nodes c) \<and> has_output (nodes c)
     \<and> (\<forall>e\<in>set (edges c). source e \<in> set (map node_id (nodes c))
                            \<and> target e \<in> set (map node_id (nodes c)))"
  by (auto simp: validate_workflow_def validation_errors_def node_type_errors_empty
      edge_errors_empty)

subsection \<open>The handlers\<close>

lemma execute_node_output:
  "effective_type n = Some ''output'' \<Longrightarrow> execute_node ev n cx = execute_output ev n cx"
  by (simp add: execute_node_def USER_QUERY_def KNOWLEDGE_BASE_def LLM_ENGINE_def
      WEB_SEARCH_def OUTPUT_def)

lemma execute_node_llm:
  "effective_type n = Some ''llm_engine'' \<Longrightarrow> execute_node ev n cx = execute_llm_engine ev n cx"
  by (simp add: execute_node_def USER_QUERY_def KNOWLEDGE_BASE_def LLM_ENGINE_def
      WEB_SEARCH_def OUTPUT_def)







lemma llm_provider_absent:
  "model cfg = Absent \<Longrightarrow>
     llm_provider ev cfg
       = Inr (if contains ''gemini'' (str_lower ev []) then GEMINI else OPENAI)"
  by (simp add: llm_provider_def model_name_def)



lemma execute_llm_engine_calls:
  "llm_provider ev (config n) = Inr p \<Longrightarrow>
     snd (execute_llm_engine ev n cx) = [CompletionCall (llm_request n cx p)]"
  by (simp add: execute_llm_engine_def Let_def split: sum.splits)



lemma execute_node_ignores_data_type:
  assumes "node_type n \<noteq> Some ''custom''"
  shows "execute_node ev (n\<lparr>data_type := d\<rparr>) cx = execute_node ev n cx"
  using assms
  by (simp add: execute_node_def effective_type_def execute_user_query_def
      execute_knowledge_base_def kb_request_def execute_llm_engine_def llm_request_def
      llm_provider_def model_name_def
      execute_web_search_def execute_output_def Let_def split: sum.splits)

subsection \<open>Dictionaries\<close>

lemma dict_keys_dict_set:
  "set (dict_keys (dict_set d k v)) = insert k (set (dict_keys d))"
  by (induction d) (force simp: dict_keys_def)+

lemma dict_get_dict_set:
  "dict_get (dict_set d k v) k' = (if k' = k then Some v else dict_get d k')"
  by (induction d) (auto simp: dict_get_def)

lemma dict_get_None_iff:
  "dict_get d k = None \<longleftrightarrow> k \<notin> set (dict_keys d)"
  by (simp add: dict_get_def dict_keys_def map_of_eq_None_iff)

lemma dict_get_in_values:
  "dict_get d k = Some v \<Longrightarrow> v \<in> set (dict_values d)"
  by (auto simp: dict_get_def dict_values_def dest: map_of_SomeD intro: rev_image_eqI)

subsection \<open>Storing the outcomes of a wave\<close>

lemma store_results_keys:
  "set (dict_keys (store_results rs zs)) = set (dict_keys rs) \<union> node_id ` fst ` set zs"
  by (induction rs zs rule: store_results.induct) (auto simp: dict_keys_dict_set)

lemma store_results_other:
  "k \<notin> node_id ` fst ` set zs \<Longrightarrow> dict_get (store_results rs zs) k = dict_get rs k"
  by (induction rs zs rule: store_results.induct) (auto simp: dict_get_dict_set)

lemma store_results_committed:
  "k \<in> node_id ` fst ` set zs \<Longrightarrow>
     \<exists>z\<in>set zs. node_id (fst z) = k
        \<and> dict_get (store_results rs zs) k = Some (commit_result (fst (snd z)))"
proof (induction rs zs rule: store_results.induct)
  case (1 rs)
  then show ?case by simp
next
  case (2 rs n out rest)
  show ?case
  proof (cases "k \<in> node_id ` fst ` set rest")
    case True
    from 2(1) [OF True] show ?thesis by auto
  next
    case False
    with 2(2) have k: "k = node_id n" by auto
    have "dict_get (store_results (dict_set rs (node_id n) (commit_result (fst out))) rest) k
            = Some (commit_result (fst out))"
      using False by (simp add: store_results_other dict_get_dict_set k)
    then show ?thesis using k by auto
  qed
qed

lemma zip_outcomes_fst:
  "fst ` set (zip ready (map f ready)) = set ready"
  by (induction ready) auto

lemma zip_outcomes_mem:
  "z \<in> set (zip ready (map f ready)) \<Longrightarrow> fst z \<in> set ready \<and> snd z = f (fst z)"
  by (induction ready) auto

subsection \<open>One wave\<close>

lemma executed_run_wave:
  "executed (run_wave ev ready st) = executed st \<union> node_id ` set ready"
  by (simp add: run_wave_def Let_def)

lemma iterations_run_wave:
  "iterations (run_wave ev ready st) = iterations st"
  by (simp add: run_wave_def Let_def)

lemma trace_run_wave:
  "trace (run_wave ev ready st)
     = trace st @ [\<lparr> wave_nodes = ready, wave_context = ctx st,
                     wave_calls = concat (map (\<lambda>n. snd (execute_node ev n (ctx st))) ready) \<rparr>]"
  by (simp add: run_wave_def Let_def comp_def)

lemma results_run_wave:
  "results (ctx (run_wave ev ready st))
     = store_results (results (ctx st)) (zip ready (map (\<lambda>n. execute_node ev n (ctx st)) ready))"
  by (simp add: run_wave_def Let_def)

lemma keys_run_wave:
  "set (dict_keys (results (ctx (run_wave ev ready st))))
     = set (dict_keys (results (ctx st))) \<union> node_id ` set ready"
  by (simp add: results_run_wave store_results_keys zip_outcomes_fst)

lemma run_wave_other:
  "k \<notin> node_id ` set ready \<Longrightarrow>
     dict_get (results (ctx (run_wave ev ready st))) k = dict_get (results (ctx st)) k"
  by (simp add: results_run_wave store_results_other zip_outcomes_fst)

lemma run_wave_committed:
  assumes "k \<in> node_id ` set ready"
  shows "\<exists>a\<in>set ready. node_id a = k
           \<and> dict_get (results (ctx (run_wave ev ready st))) k
               = Some (commit_result (fst (execute_node ev a (ctx st))))"
proof -
  let ?zs = "zip ready (map (\<lambda>n. execute_node ev n (ctx st)) ready)"
  from assms have "k \<in> node_id ` fst ` set ?zs"
    by (simp add: zip_outcomes_fst)
  from store_results_committed [OF this, of "results (ctx st)"]
  obtain z where z: "z \<in> set ?zs" "node_id (fst z) = k"
    and v: "dict_get (store_results (results (ctx st)) ?zs) k
              = Some (commit_result (fst (snd z)))"
    by blast
  from zip_outcomes_mem [OF z(1)]
  have "fst z \<in> set ready" "snd z = execute_node ev (fst z) (ctx st)"
    by simp_all
  with z v show ?thesis
    by (auto simp: results_run_wave)
qed

lemma ready_nodes_subset:
  "set (ready_nodes g ex ns) \<subseteq> set ns"
  by (auto simp: ready_nodes_def)

lemma ready_nodes_fresh:
  "n \<in> set (ready_nodes g ex ns) \<Longrightarrow> node_id n \<notin> ex"
  by (simp add: ready_nodes_def is_ready_def)

lemma ready_nodes_deps:
  "n \<in> set (ready_nodes g ex ns) \<Longrightarrow> set (dependencies_of g (node_id n)) \<subseteq> ex"
  by (auto simp: ready_nodes_def is_ready_def list_all_iff)

lemma ready_nodes_distinct:
  "distinct (map node_id ns) \<Longrightarrow> distinct (map node_id (ready_nodes g ex ns))"
  by (simp add: ready_nodes_def distinct_map_filter)

subsection \<open>The loop\<close>

declare wave_loop.simps [simp del]

lemma wave_loop_step:
  "wave_loop ev ns g st =
     (if card (executed st) < length ns then
        (if ready_nodes g (executed st) ns = [] then st\<lparr> iterations := Suc (iterations st) \<rparr>
         else wave_loop ev ns g
                (run_wave ev (ready_nodes g (executed st) ns)
                   (st\<lparr> iterations := Suc (iterations st) \<rparr>)))
      else st)"
  by (subst wave_loop.simps) (simp add: Let_def)

lemma wave_loop_invariant:
  assumes "P st"
    and step: "\<And>s. P s \<Longrightarrow> card (executed s) < length ns \<Longrightarrow>
                 ready_nodes g (executed s) ns \<noteq> [] \<Longrightarrow>
                 P (run_wave ev (ready_nodes g (executed s) ns)
                      (s\<lparr> iterations := Suc (iterations s) \<rparr>))"
    and brk: "\<And>s. P s \<Longrightarrow> card (executed s) < length ns \<Longrightarrow>
                 ready_nodes g (executed s) ns = [] \<Longrightarrow>
                 P (s\<lparr> iterations := Suc (iterations s) \<rparr>)"
  shows "P (wave_loop ev ns g st)"
  using assms
proof (induction ev ns g st rule: wave_loop.induct)
  case (1 ev ns g st)
  note init = 1(2) and step = 1(3) and brk = 1(4)
  show ?case
  proof (cases "card (executed st) < length ns")
    case False
    with init show ?thesis by (subst wave_loop_step) simp
  next
    case True
    show ?thesis
    proof (cases "ready_nodes g (executed st) ns = []")
      case empty: True
      from brk [OF init True empty] True empty show ?thesis
        by (subst wave_loop_step) simp
    next
      case nonempty: False
      have "P (wave_loop ev ns g
                 (run_wave ev (ready_nodes g (executed st) ns)
                    (st\<lparr> iterations := Suc (iterations st) \<rparr>)))"
        by (rule 1(1) [OF True refl refl nonempty step [OF init True nonempty] step brk])
      with True nonempty show ?thesis by (subst wave_loop_step) simp
    qed
  qed
qed

subsection \<open>Progress of the loop\<close>

lemma run_wave_strict:
  assumes ne: "ready_nodes g (executed st) ns \<noteq> []"
    and st1: "executed st1 = executed st"
  shows "executed st \<subset> executed (run_wave ev (ready_nodes g (executed st) ns) st1)"
proof -
  from ne obtain n where n: "n \<in> set (ready_nodes g (executed st) ns)"
    by (cases "ready_nodes g (executed st) ns") auto
  then have "node_id n \<notin> executed st"
    by (rule ready_nodes_fresh)
  moreover have "node_id n \<in> executed (run_wave ev (ready_nodes g (executed st) ns) st1)"
    using n by (simp add: executed_run_wave)
  ultimately show ?thesis
    by (auto simp: executed_run_wave st1)
qed

lemma iterations_bound:
  "finite (executed st) \<Longrightarrow>
     iterations (wave_loop ev ns g st) \<le> iterations st + (length ns - card (executed st))"
proof (induction ev ns g st rule: wave_loop.induct)
  case (1 ev ns g st)
  let ?ready = "ready_nodes g (executed st) ns"
  let ?st1 = "st\<lparr> iterations := Suc (iterations st) \<rparr>"
  show ?case
  proof (cases "card (executed st) < length ns")
    case False
    then show ?thesis by (subst wave_loop_step) simp
  next
    case True
    show ?thesis
    proof (cases "?ready = []")
      case empty: True
      with True show ?thesis by (subst wave_loop_step) simp
    next
      case nonempty: False
      let ?st2 = "run_wave ev ?ready ?st1"
      have fin: "finite (executed ?st2)"
        using 1(2) by (simp add: executed_run_wave)
      have "executed st \<subset> executed ?st2"
        by (rule run_wave_strict [OF nonempty]) simp
      then have "card (executed st) < card (executed ?st2)"
        using fin by (rule psubset_card_mono [rotated])
      moreover have "iterations (wave_loop ev ns g ?st2)
                       \<le> iterations ?st2 + (length ns - card (executed ?st2))"
        by (rule 1(1) [OF True refl refl nonempty fin])
      moreover have "iterations ?st2 = Suc (iterations st)"
        by (simp add: iterations_run_wave)
      ultimately have "iterations (wave_loop ev ns g ?st2)
                         \<le> iterations st + (length ns - card (executed st))"
        using True by linarith
      with True nonempty show ?thesis by (subst wave_loop_step) simp
    qed
  qed
qed

lemma waves_bound:
  "length (trace (wave_loop ev ns g st)) - length (trace st)
     \<le> iterations (wave_loop ev ns g st) - iterations st
   \<and> length (trace st) \<le> length (trace (wave_loop ev ns g st))
   \<and> iterations st \<le> iterations (wave_loop ev ns g st)"
proof (induction ev ns g st rule: wave_loop.induct)
  case (1 ev ns g st)
  let ?ready = "ready_nodes g (executed st) ns"
  let ?st1 = "st\<lparr> iterations := Suc (iterations st) \<rparr>"
  show ?case
  proof (cases "card (executed st) < length ns")
    case False
    then show ?thesis by (subst (1 2 3 4) wave_loop_step) simp
  next
    case True
    show ?thesis
    proof (cases "?ready = []")
      case empty: True
      with True show ?thesis by (subst (1 2 3 4) wave_loop_step) simp
    next
      case nonempty: False
      let ?st2 = "run_wave ev ?ready ?st1"
      note ih = 1(1) [OF True refl refl nonempty]
      have eq: "wave_loop ev ns g st = wave_loop ev ns g ?st2"
        using True nonempty by (subst wave_loop_step) simp
      have "length (trace ?st2) = Suc (length (trace st))"
        by (simp add: trace_run_wave)
      moreover have "iterations ?st2 = Suc (iterations st)"
        by (simp add: iterations_run_wave)
      ultimately show ?thesis
        using ih unfolding eq by linarith
    qed
  qed
qed

lemma executed_subset_ids:
  "executed st \<subseteq> node_id ` set ns \<Longrightarrow> executed (wave_loop ev ns g st) \<subseteq> node_id ` set ns"
proof (rule wave_loop_invariant [where P = "\<lambda>s::loop_state. executed s \<subseteq> node_id ` set ns"])
  fix s :: loop_state
  assume "executed s \<subseteq> node_id ` set ns"
  moreover have "set (ready_nodes g (executed s) ns) \<subseteq> set ns"
    by (rule ready_nodes_subset)
  ultimately show "executed (run_wave ev (ready_nodes g (executed s) ns)
                      (s\<lparr> iterations := Suc (iterations s) \<rparr>)) \<subseteq> node_id ` set ns"
    by (auto simp: executed_run_wave)
qed simp_all

lemma execute_workflow_valid:
  "valid (validate_workflow c) \<Longrightarrow>
     execute_workflow ev c ui sid
       = (Inr (finish ev c (run_waves ev c ui sid)), trace (run_waves ev c ui sid))"
  by (simp add: execute_workflow_def Let_def)


subsection \<open>The invariant\<close>

lemma ids_before_append:
  "j \<le> length tr \<Longrightarrow> ids_before (tr @ [w]) j = ids_before tr j"
  by (simp add: ids_before_def)

lemma ids_before_snoc:
  "ids_before (tr @ [w]) (Suc (length tr)) = ids_before tr (length tr) \<union> wave_ids w"
  by (auto simp: ids_before_def)

lemma ids_before_mono:
  "ids_before tr j \<subseteq> ids_before tr (length tr)"
  by (auto simp: ids_before_def dest: in_set_takeD)

lemma wave_ids_in_all:
  "j < length tr \<Longrightarrow> wave_ids (tr ! j) \<subseteq> ids_before tr (length tr)"
  by (auto simp: ids_before_def intro: nth_mem)

lemma ids_before_nth:
  "k \<in> ids_before tr j \<longleftrightarrow> (\<exists>i<j. i < length tr \<and> k \<in> wave_ids (tr ! i))"
proof
  assume "k \<in> ids_before tr j"
  then obtain w where w: "w \<in> set (take j tr)" and k: "k \<in> wave_ids w"
    by (auto simp: ids_before_def)
  from w obtain i where "i < length (take j tr)" and "take j tr ! i = w"
    by (auto simp: in_set_conv_nth)
  then have "i < j" "i < length tr" "tr ! i = w"
    by simp_all
  with k show "\<exists>i<j. i < length tr \<and> k \<in> wave_ids (tr ! i)"
    by blast
next
  assume "\<exists>i<j. i < length tr \<and> k \<in> wave_ids (tr ! i)"
  then obtain i where i: "i < j" "i < length tr" and k: "k \<in> wave_ids (tr ! i)"
    by blast
  from i have "tr ! i \<in> set (take j tr)"
    by (auto simp: in_set_conv_nth intro!: exI [of _ i])
  with k show "k \<in> ids_before tr j"
    by (auto simp: ids_before_def)
qed

lemma wave_inv_old:
  assumes inv: "wave_inv ev g tr res j"
    and j: "j < length tr"
    and same: "\<forall>k\<in>ids_before tr (length tr). dict_get res' k = dict_get res k"
  shows "wave_inv ev g (tr @ [w]) res' j"
proof -
  from j have nth: "(tr @ [w]) ! j = tr ! j"
    by (simp add: nth_append)
  from j have before: "ids_before (tr @ [w]) j = ids_before tr j"
    by (simp add: ids_before_append)
  have a: "\<forall>k\<in>wave_ids (tr ! j). dict_get res' k = dict_get res k"
    using same wave_ids_in_all [OF j] by blast
  have b: "\<forall>k\<in>ids_before tr j. dict_get res' k = dict_get res k"
    using same ids_before_mono [of tr j] by blast
  show ?thesis
    using inv a b unfolding wave_inv_def nth before
    by (metis (no_types, lifting))
qed


lemma loop_inv_initial:
  "loop_inv ev (nodes c) g (initial_state ev c ui sid)"
  by (simp add: loop_inv_def initial_state_def dict_keys_def ids_before_def)

lemma loop_inv_iterations:
  "loop_inv ev ns g (s\<lparr> iterations := k \<rparr>) = loop_inv ev ns g s"
  by (simp add: loop_inv_def)

lemma loop_inv_step:
  assumes inv: "loop_inv ev ns g s"
  defines "ready \<equiv> ready_nodes g (executed s) ns"
  defines "s' \<equiv> run_wave ev ready (s\<lparr> iterations := Suc (iterations s) \<rparr>)"
  shows "loop_inv ev ns g s'"
proof -
  let ?tr = "trace s"
  let ?w = "\<lparr> wave_nodes = ready, wave_context = ctx s,
              wave_calls = concat (map (\<lambda>n. snd (execute_node ev n (ctx s))) ready) \<rparr>"
  let ?res = "results (ctx s)"
  let ?res' = "results (ctx s')"
  from inv have K: "set (dict_keys ?res) = executed s"
    and E: "executed s = ids_before ?tr (length ?tr)"
    and N: "\<forall>w\<in>set ?tr. set (wave_nodes w) \<subseteq> set ns
              \<and> (distinct (map node_id ns) \<longrightarrow> distinct (map node_id (wave_nodes w)))"
    and W: "\<forall>j<length ?tr. wave_inv ev g ?tr ?res j"
    by (simp_all add: loop_inv_def)
  have tr': "trace s' = ?tr @ [?w]"
    by (simp add: s'_def trace_run_wave)
  have ex': "executed s' = executed s \<union> node_id ` set ready"
    by (simp add: s'_def executed_run_wave)
  have keys': "set (dict_keys ?res') = set (dict_keys ?res) \<union> node_id ` set ready"
    by (simp add: s'_def keys_run_wave)
  have wid: "wave_ids ?w = node_id ` set ready"
    by (simp add: wave_ids_def)
  have fresh: "node_id ` set ready \<inter> executed s = {}"
    using ready_nodes_fresh [of _ g "executed s" ns] by (auto simp: ready_def)
  have same: "\<forall>k\<in>executed s. dict_get ?res' k = dict_get ?res k"
  proof
    fix k assume "k \<in> executed s"
    with fresh have "k \<notin> node_id ` set ready" by blast
    then show "dict_get ?res' k = dict_get ?res k"
      unfolding s'_def by (simp add: run_wave_other)
  qed
  have K': "set (dict_keys ?res') = executed s'"
    using K keys' ex' by simp
  have E': "executed s' = ids_before (trace s') (length (trace s'))"
    using E ex' wid by (simp add: tr' ids_before_snoc)
  have N': "\<forall>w\<in>set (trace s'). set (wave_nodes w) \<subseteq> set ns
              \<and> (distinct (map node_id ns) \<longrightarrow> distinct (map node_id (wave_nodes w)))"
    using N ready_nodes_subset [of g "executed s" ns] ready_nodes_distinct [of ns g "executed s"]
    by (auto simp: tr' ready_def)
  have new: "wave_inv ev g (?tr @ [?w]) ?res' (length ?tr)"
    unfolding wave_inv_def
  proof (intro conjI ballI)
    show "set (dict_keys (results (wave_context ((?tr @ [?w]) ! length ?tr))))
            = ids_before (?tr @ [?w]) (length ?tr)"
      using K E by (simp add: ids_before_append)
    show "wave_ids ((?tr @ [?w]) ! length ?tr) \<inter> ids_before (?tr @ [?w]) (length ?tr) = {}"
      using fresh E wid by (simp add: ids_before_append)
  next
    fix b assume "b \<in> set (wave_nodes ((?tr @ [?w]) ! length ?tr))"
    then have "b \<in> set (ready_nodes g (executed s) ns)"
      by (simp add: ready_def)
    then have "set (dependencies_of g (node_id b)) \<subseteq> executed s"
      by (rule ready_nodes_deps)
    then show "set (dependencies_of g (node_id b)) \<subseteq> ids_before (?tr @ [?w]) (length ?tr)"
      using E by (simp add: ids_before_append)
  next
    fix k assume "k \<in> wave_ids ((?tr @ [?w]) ! length ?tr)"
    then have "k \<in> node_id ` set ready"
      by (simp add: wave_ids_def)
    from run_wave_committed [OF this, of ev "s\<lparr> iterations := Suc (iterations s) \<rparr>"]
    show "\<exists>a\<in>set (wave_nodes ((?tr @ [?w]) ! length ?tr)). node_id a = k
             \<and> dict_get ?res' k
                 = Some (commit_result
                     (fst (execute_node ev a (wave_context ((?tr @ [?w]) ! length ?tr)))))"
      by (simp add: s'_def)
  next
    fix k assume "k \<in> ids_before (?tr @ [?w]) (length ?tr)"
    then have "k \<in> executed s"
      using E by (simp add: ids_before_append)
    with same show "dict_get (results (wave_context ((?tr @ [?w]) ! length ?tr))) k
                      = dict_get ?res' k"
      by simp
  qed
  have W': "\<forall>j<length (trace s'). wave_inv ev g (trace s') ?res' j"
  proof (intro allI impI)
    fix j assume "j < length (trace s')"
    then have "j < length ?tr \<or> j = length ?tr"
      by (auto simp: tr')
    then consider "j < length ?tr" | "j = length ?tr"
      by blast
    then show "wave_inv ev g (trace s') ?res' j"
    proof cases
      case 1
      with W have "wave_inv ev g ?tr ?res j" by blast
      from wave_inv_old [OF this 1, of ?res' ?w] same E
      show ?thesis by (simp add: tr')
    next
      case 2
      with new show ?thesis by (simp add: tr')
    qed
  qed
  from K' E' N' W' show ?thesis
    by (simp add: loop_inv_def)
qed

lemma loop_inv_final:
  "loop_inv ev (nodes c) g
     (wave_loop ev (nodes c) g (initial_state ev c ui sid))"
proof (rule wave_loop_invariant [where P = "loop_inv ev (nodes c) g"])
  show "loop_inv ev (nodes c) g (initial_state ev c ui sid)"
    by (rule loop_inv_initial)
next
  fix s :: loop_state
  assume "loop_inv ev (nodes c) g s"
  then show "loop_inv ev (nodes c) g
               (run_wave ev (ready_nodes g (executed s) (nodes c))
                  (s\<lparr> iterations := Suc (iterations s) \<rparr>))"
    by (rule loop_inv_step)
next
  fix s :: loop_state
  assume "loop_inv ev (nodes c) g s"
  then show "loop_inv ev (nodes c) g (s\<lparr> iterations := Suc (iterations s) \<rparr>)"
    by (simp add: loop_inv_iterations)
qed

lemma loop_inv_run_waves:
  "loop_inv ev (nodes c) (build_execution_graph (nodes c) (edges c)) (run_waves ev c ui sid)"
  unfolding run_waves_def by (rule loop_inv_final)

subsection \<open>The execution graph\<close>

lemma append_dependency_dom:
  "append_dependency g k v x = None \<longleftrightarrow> g x = None"
  by (simp add: append_dependency_def split: option.splits)

lemma append_dependent_dom:
  "append_dependent g k v x = None \<longleftrightarrow> g x = None"
  by (simp add: append_dependent_def split: option.splits)

lemma dependencies_of_append_dependency:
  "dependencies_of (append_dependency g k v) x
     = (if x = k \<and> g k \<noteq> None then dependencies_of g k @ [v] else dependencies_of g x)"
  by (auto simp: append_dependency_def dependencies_of_def split: option.splits)

lemma dependencies_of_append_dependent:
  "dependencies_of (append_dependent g k v) x = dependencies_of g x"
  by (auto simp: append_dependent_def dependencies_of_def split: option.splits)

lemma add_edges_dom:
  "add_edges g es x = None \<longleftrightarrow> g x = None"
  by (induction g es rule: add_edges.induct)
    (simp_all add: append_dependency_dom append_dependent_dom)

lemma add_edges_keeps:
  "d \<in> set (dependencies_of g x) \<Longrightarrow> d \<in> set (dependencies_of (add_edges g es) x)"
proof (induction g es rule: add_edges.induct)
  case (1 g)
  then show ?case by simp
next
  case (2 g e es)
  let ?g' = "if g (source e) \<noteq> None \<and> g (target e) \<noteq> None
             then append_dependent (append_dependency g (target e) (source e))
                    (source e) (target e)
             else g"
  have "d \<in> set (dependencies_of ?g' x)"
    using 2(2)
    by (auto simp: dependencies_of_append_dependent dependencies_of_append_dependency)
  from 2(1) [OF this] show ?case by simp
qed

lemma add_edges_edge:
  assumes "e \<in> set es" and "g (source e) \<noteq> None" and "g (target e) \<noteq> None"
  shows "source e \<in> set (dependencies_of (add_edges g es) (target e))"
  using assms
proof (induction g es rule: add_edges.induct)
  case (1 g)
  then show ?case by simp
next
  case (2 g e' es)
  let ?g' = "if g (source e') \<noteq> None \<and> g (target e') \<noteq> None
             then append_dependent (append_dependency g (target e') (source e'))
                    (source e') (target e')
             else g"
  have dom: "?g' (source e) \<noteq> None" "?g' (target e) \<noteq> None"
    using 2(3,4)
    by (simp_all add: append_dependency_dom append_dependent_dom del: not_None_eq)
  show ?case
  proof (cases "e = e'")
    case True
    have "source e \<in> set (dependencies_of ?g' (target e))"
      using 2(3,4) True
      by (auto simp: dependencies_of_append_dependent dependencies_of_append_dependency)
    from add_edges_keeps [OF this] show ?thesis by simp
  next
    case False
    with 2(2) have "e \<in> set es" by simp
    from 2(1) [OF this dom] show ?thesis by simp
  qed
qed

lemma init_graph_dom:
  "init_graph g ns x = None \<longleftrightarrow> g x = None \<and> x \<notin> node_id ` set ns"
proof (induction g ns rule: init_graph.induct)
  case (1 g)
  show ?case by simp
next
  case (2 g n ns)
  show ?case
    unfolding init_graph.simps 2 by (cases "x = node_id n") simp_all
qed

lemma build_execution_graph_edge:
  assumes "e \<in> set es" and "source e \<in> node_id ` set ns" and "target e \<in> node_id ` set ns"
  shows "source e \<in> set (dependencies_of (build_execution_graph ns es) (target e))"
  unfolding build_execution_graph_def
  by (rule add_edges_edge [OF assms(1)]) (simp_all add: init_graph_dom assms del: not_None_eq)

lemma valid_edges_declared:
  "valid (validate_workflow c) \<Longrightarrow> e \<in> set (edges c) \<Longrightarrow>
     source e \<in> node_id ` set (nodes c) \<and> target e \<in> node_id ` set (nodes c)"
  by (auto simp: valid_iff)


lemma trace_of_execute_workflow:
  "snd (execute_workflow ev c ui sid)
     = (if valid (validate_workflow c) then trace (run_waves ev c ui sid) else [])"
  by (simp add: execute_workflow_def Let_def)

subsection \<open>The end of the loop\<close>

lemma wave_loop_exit:
  "card (executed (wave_loop ev ns g st)) < length ns \<Longrightarrow>
     ready_nodes g (executed (wave_loop ev ns g st)) ns = []"
proof (induction ev ns g st rule: wave_loop.induct)
  case (1 ev ns g st)
  let ?ready = "ready_nodes g (executed st) ns"
  let ?st1 = "st\<lparr> iterations := Suc (iterations st) \<rparr>"
  show ?case
  proof (cases "card (executed st) < length ns")
    case False
    then have "wave_loop ev ns g st = st"
      by (subst wave_loop_step) simp
    with False 1(2) show ?thesis by simp
  next
    case True
    show ?thesis
    proof (cases "?ready = []")
      case empty: True
      with True have "wave_loop ev ns g st = ?st1"
        by (subst wave_loop_step) simp
      with empty show ?thesis by simp
    next
      case nonempty: False
      with True have eq: "wave_loop ev ns g st = wave_loop ev ns g (run_wave ev ?ready ?st1)"
        by (subst wave_loop_step) simp
      from 1(1) [OF True refl refl nonempty] 1(2) show ?thesis
        unfolding eq by simp
    qed
  qed
qed

lemma final_output_eq:
  "final_output rs ns
     = map (\<lambda>n. the (dict_get rs (node_id n)))
         (filter (\<lambda>n. node_id n \<in> set (dict_keys rs)) ns)"
proof (induction ns)
  case Nil
  show ?case by simp
next
  case (Cons n ns)
  show ?case
  proof (cases "dict_get rs (node_id n)")
    case None
    then have "node_id n \<notin> set (dict_keys rs)"
      by (simp add: dict_get_None_iff)
    with None Cons show ?thesis by simp
  next
    case (Some r)
    then have "node_id n \<in> set (dict_keys rs)"
      using dict_get_None_iff [of rs "node_id n"] by auto
    with Some Cons show ?thesis by simp
  qed
qed

lemma unexecuted_card:
  assumes sub: "ex \<subseteq> node_id ` set ns" and n: "n \<in> set ns" and out: "node_id n \<notin> ex"
  shows "card ex < length ns"
proof -
  have "ex \<subset> node_id ` set ns"
    using sub n out by blast
  then have "card ex < card (node_id ` set ns)"
    by (intro psubset_card_mono) auto
  also have "\<dots> \<le> card (set ns)"
    by (rule card_image_le) simp
  also have "\<dots> \<le> length ns"
    by (rule card_length)
  finally show ?thesis .
qed

subsection \<open>The schedule does not depend on the outcomes\<close>

lemma schedule_independent:
  assumes "executed st = executed st'"
    and "map wave_nodes (trace st) = map wave_nodes (trace st')"
  shows "executed (wave_loop ev ns g st) = executed (wave_loop ev' ns g st')
         \<and> map wave_nodes (trace (wave_loop ev ns g st))
             = map wave_nodes (trace (wave_loop ev' ns g st'))"
  using assms
proof (induction ev ns g st arbitrary: st' rule: wave_loop.induct)
  case (1 ev ns g st)
  note ex = 1(2) and tr = 1(3)
  let ?ready = "ready_nodes g (executed st) ns"
  let ?st1 = "st\<lparr> iterations := Suc (iterations st) \<rparr>"
  let ?st1' = "st'\<lparr> iterations := Suc (iterations st') \<rparr>"
  show ?case
  proof (cases "card (executed st) < length ns")
    case False
    then have "wave_loop ev ns g st = st" "wave_loop ev' ns g st' = st'"
      using ex by (subst wave_loop_step, simp)+
    with ex tr show ?thesis by simp
  next
    case True
    show ?thesis
    proof (cases "?ready = []")
      case empty: True
      with True have "wave_loop ev ns g st = ?st1" "wave_loop ev' ns g st' = ?st1'"
        using ex by (subst wave_loop_step, simp)+
      with ex tr show ?thesis by simp
    next
      case nonempty: False
      let ?st2 = "run_wave ev ?ready ?st1"
      let ?st2' = "run_wave ev' ?ready ?st1'"
      from True nonempty
      have eq: "wave_loop ev ns g st = wave_loop ev ns g ?st2"
        by (subst wave_loop_step) simp
      from True nonempty ex
      have eq': "wave_loop ev' ns g st' = wave_loop ev' ns g ?st2'"
        by (subst wave_loop_step) simp
      have ex2: "executed ?st2 = executed ?st2'"
        using ex by (simp add: executed_run_wave)
      have tr2: "map wave_nodes (trace ?st2) = map wave_nodes (trace ?st2')"
        using tr by (simp add: trace_run_wave)
      from 1(1) [OF True refl refl nonempty ex2 tr2] show ?thesis
        unfolding eq eq' .
    qed
  qed
qed

lemma schedule_of_run:
  "map wave_nodes (trace (run_waves ev' c ui sid)) = map wave_nodes (trace (run_waves ev c ui sid))
   \<and> executed (run_waves ev' c ui sid) = executed (run_waves ev c ui sid)"
  unfolding run_waves_def
  using schedule_independent [of "initial_state ev' c ui sid" "initial_state ev c ui sid"
      ev' "nodes c" "build_execution_graph (nodes c) (edges c)" ev]
  by (simp add: initial_state_def)


section \<open>Rejection of an invalid workflow\<close>

text \<open>
  C1. When \<open>validate_workflow\<close> returns \<open>valid = False\<close>, \<open>execute_workflow\<close> fails with
  \<open>InvalidWorkflow\<close>, carrying the validation errors, and the run has no wave: no handler
  was started, no collaborator was invoked, and no context was built (the outcome is the
  error alone).
\<close>

theorem invalid_workflow_rejected:
  assumes "\<not> valid (validate_workflow c)"
  shows "execute_workflow ev c ui sid
           = (Inl (InvalidWorkflow (errors (validate_workflow c))), [])
         \<and> calls_of (snd (execute_workflow ev c ui sid)) = []
         \<and> handlers_of (snd (execute_workflow ev c ui sid)) = []"
  using assms by (simp add: execute_workflow_def calls_of_def handlers_of_def)

theorem invalid_workflow_rejected_witness:
  "\<not> valid (validate_workflow two_queries)
   \<and> execute_workflow echo_env two_queries ''hello'' None
       = (Inl (InvalidWorkflow [''Workflow must have at least one Output node'']), [])
   \<and> calls_of (snd (execute_workflow echo_env two_queries ''hello'' None)) = []
   \<and> handlers_of (snd (execute_workflow echo_env two_queries ''hello'' None)) = []"
proof -
  have invalid: "\<not> valid (validate_workflow two_queries)"
    by code_simp
  have errs: "errors (validate_workflow two_queries)
                = [''Workflow must have at least one Output node'']"
    by code_simp
  from invalid_workflow_rejected [OF invalid, of echo_env "''hello''" None] invalid errs
  show ?thesis by (simp add: calls_of_def handlers_of_def)
qed

section \<open>What the validator rejects\<close>

text \<open>
  C2, as the code has it. \<open>validate_workflow\<close> returns \<open>valid = False\<close>, that is a
  non-empty error list, exactly when the node list is empty, or some node's effective
  type is outside the five component types, or no node has user_query as its top-level
  type or as its \<^verbatim>\<open>data.type\<close>, or no node has output as its top-level type or as its
  \<^verbatim>\<open>data.type\<close>, or some edge's source or target is not a declared node id. The
  missing-user_query error names "User Query", the missing-output error names "Output",
  and the error of a bad edge names the offending id.
\<close>

theorem validate_invalid_iff:
  "(\<not> valid (validate_workflow c) \<longleftrightarrow> errors (validate_workflow c) \<noteq> [])
   \<and> (\<not> valid (validate_workflow c) \<longleftrightarrow>
        nodes c = []
        \<or> (\<exists>n\<in>set (nodes c). effective_type n \<notin>
              Some ` {''user_query'', ''knowledge_base'', ''llm_engine'', ''web_search'', ''output''})
        \<or> \<not> (\<exists>n\<in>set (nodes c).
                node_type n = Some ''user_query'' \<or> data_type n = Some ''user_query'')
        \<or> \<not> (\<exists>n\<in>set (nodes c).
                node_type n = Some ''output'' \<or> data_type n = Some ''output'')
        \<or> (\<exists>e\<in>set (edges c). source e \<notin> node_id ` set (nodes c)
                                \<or> target e \<notin> node_id ` set (nodes c)))
   \<and> (\<not> (\<exists>n\<in>set (nodes c).
            node_type n = Some ''user_query'' \<or> data_type n = Some ''user_query'')
        \<longrightarrow> ''Workflow must have at least one User Query node''
              \<in> set (errors (validate_workflow c)))
   \<and> (\<not> (\<exists>n\<in>set (nodes c).
            node_type n = Some ''output'' \<or> data_type n = Some ''output'')
        \<longrightarrow> ''Workflow must have at least one Output node''
              \<in> set (errors (validate_workflow c)))
   \<and> (\<forall>e\<in>set (edges c).
          (source e \<notin> node_id ` set (nodes c)
             \<longrightarrow> ''Invalid edge source: '' @ py_str (source e)
                   \<in> set (errors (validate_workflow c)))
        \<and> (target e \<notin> node_id ` set (nodes c)
             \<longrightarrow> ''Invalid edge target: '' @ py_str (target e)
                   \<in> set (errors (validate_workflow c))))"
proof (intro conjI)
  show "\<not> valid (validate_workflow c) \<longleftrightarrow> errors (validate_workflow c) \<noteq> []"
    by (simp add: validate_workflow_def)
  show "\<not> valid (validate_workflow c) \<longleftrightarrow>
        nodes c = []
        \<or> (\<exists>n\<in>set (nodes c). effective_type n \<notin>
              Some ` {''user_query'', ''knowledge_base'', ''llm_engine'', ''web_search'', ''output''})
        \<or> \<not> (\<exists>n\<in>set (nodes c).
                node_type n = Some ''user_query'' \<or> data_type n = Some ''user_query'')
        \<or> \<not> (\<exists>n\<in>set (nodes c).
                node_type n = Some ''output'' \<or> data_type n = Some ''output'')
        \<or> (\<exists>e\<in>set (edges c). source e \<notin> node_id ` set (nodes c)
                                \<or> target e \<notin> node_id ` set (nodes c))"
    unfolding valid_iff type_is_valid_iff has_input_iff has_output_iff by auto
  show "\<not> (\<exists>n\<in>set (nodes c).
            node_type n = Some ''user_query'' \<or> data_type n = Some ''user_query'')
        \<longrightarrow> ''Workflow must have at least one User Query node''
              \<in> set (errors (validate_workflow c))"
    by (simp add: validate_workflow_def validation_errors_def has_input_iff)
  show "\<not> (\<exists>n\<in>set (nodes c).
            node_type n = Some ''output'' \<or> data_type n = Some ''output'')
        \<longrightarrow> ''Workflow must have at least one Output node''
              \<in> set (errors (validate_workflow c))"
    by (simp add: validate_workflow_def validation_errors_def has_output_iff)
  show "\<forall>e\<in>set (edges c).
          (source e \<notin> node_id ` set (nodes c)
             \<longrightarrow> ''Invalid edge source: '' @ py_str (source e)
                   \<in> set (errors (validate_workflow c)))
        \<and> (target e \<notin> node_id ` set (nodes c)
             \<longrightarrow> ''Invalid edge target: '' @ py_str (target e)
                   \<in> set (errors (validate_workflow c)))"
    by (auto simp: validate_workflow_def validation_errors_def
        dest: edge_errors_source edge_errors_target)
qed

theorem validate_invalid_iff_witness:
  "\<not> valid (validate_workflow dangling)
   \<and> ''Workflow must have at least one Output node'' \<in> set (errors (validate_workflow dangling))
   \<and> ''Invalid edge target: zz'' \<in> set (errors (validate_workflow dangling))"
proof -
  have no_out: "\<not> (\<exists>n\<in>set (nodes dangling).
                     node_type n = Some ''output'' \<or> data_type n = Some ''output'')"
    by (simp add: dangling_def plain_node_def)
  have e: "link ''q'' ''zz'' \<in> set (edges dangling)"
    by (simp add: dangling_def)
  have t: "target (link ''q'' ''zz'') \<notin> node_id ` set (nodes dangling)"
    by (simp add: dangling_def plain_node_def link_def)
  note inst = validate_invalid_iff [of dangling]
  from inst no_out have "\<not> valid (validate_workflow dangling)"
    by blast
  moreover from inst no_out
  have "''Workflow must have at least one Output node'' \<in> set (errors (validate_workflow dangling))"
    by blast
  moreover from inst e t
  have "''Invalid edge target: '' @ py_str (target (link ''q'' ''zz''))
          \<in> set (errors (validate_workflow dangling))"
    by blast
  then have "''Invalid edge target: zz'' \<in> set (errors (validate_workflow dangling))"
    by (simp add: link_def)
  ultimately show ?thesis by simp
qed

text \<open>
  C2 as stated fails: the only node of \<open>relabelled\<close> has the effective type output, so no
  user_query node exists, and the configuration is valid all the same, because the
  validator accepts the \<^verbatim>\<open>data.type\<close> of a node that is not a wrapper.
\<close>

theorem validate_counts_data_type_counterexample:
  "valid (validate_workflow relabelled)
   \<and> map effective_type (nodes relabelled) = [Some ''output'']
   \<and> \<not> spec_has_kind ''user_query'' (nodes relabelled)"
  by code_simp

section \<open>Failure of a handler\<close>

text \<open>
  C3, as the code has it. Let a validated configuration with distinct node ids be run,
  and let \<open>n\<close> be a node of a wave \<open>w\<close> of the run. If the handler of \<open>n\<close> fails with a
  message, the value stored in \<^verbatim>\<open>context["results"]\<close> under the id of \<open>n\<close> is the record
  \<^verbatim>\<open>{"error": message}\<close>, which has no \<^verbatim>\<open>type\<close> entry; if it succeeds, its result is stored.
  Every node of the wave is in the executed set. The run returns a result, whose context
  has these results. The failure stops neither the other nodes of the wave nor the later
  waves: which nodes run, and in which wave, is the same for every environment, that is,
  whatever the collaborators answer.
\<close>

theorem failures_are_recorded:
  assumes v: "valid (validate_workflow c)"
    and d: "distinct (map node_id (nodes c))"
    and w: "w \<in> set (snd (execute_workflow ev c ui sid))"
    and n: "n \<in> set (wave_nodes w)"
  shows
    "(\<forall>msg. fst (execute_node ev n (wave_context w)) = Inl msg \<longrightarrow>
        dict_get (results (ctx (run_waves ev c ui sid))) (node_id n) = Some (ErrorResult msg)
        \<and> result_type (ErrorResult msg) = None
        \<and> has_error_key (ErrorResult msg))
     \<and> (\<forall>r. fst (execute_node ev n (wave_context w)) = Inr r \<longrightarrow>
          dict_get (results (ctx (run_waves ev c ui sid))) (node_id n) = Some r)
     \<and> (\<forall>m\<in>set (wave_nodes w). node_id m \<in> executed (run_waves ev c ui sid))
     \<and> fst (execute_workflow ev c ui sid) = Inr (finish ev c (run_waves ev c ui sid))
     \<and> results (final_context (finish ev c (run_waves ev c ui sid)))
         = results (ctx (run_waves ev c ui sid))
     \<and> (\<forall>ev'. map wave_nodes (snd (execute_workflow ev' c ui sid))
                 = map wave_nodes (snd (execute_workflow ev c ui sid)))"
proof -
  let ?g = "build_execution_graph (nodes c) (edges c)"
  let ?st = "run_waves ev c ui sid"
  let ?ws = "trace ?st"
  let ?res = "results (ctx ?st)"
  from v have ws: "snd (execute_workflow ev c ui sid) = ?ws"
    by (simp add: trace_of_execute_workflow)
  have inv: "loop_inv ev (nodes c) ?g ?st"
    by (rule loop_inv_run_waves)
  from w obtain j where j: "j < length ?ws" and wj: "?ws ! j = w"
    unfolding ws by (auto simp: in_set_conv_nth)
  from inv j have Wj: "wave_inv ev ?g ?ws ?res j"
    by (simp add: loop_inv_def)
  from inv w d have dw: "distinct (map node_id (wave_nodes w))"
    unfolding ws by (auto simp: loop_inv_def)
  from inv have E: "executed ?st = ids_before ?ws (length ?ws)"
    by (simp add: loop_inv_def)
  have "node_id n \<in> wave_ids (?ws ! j)"
    using n by (simp add: wj wave_ids_def)
  with Wj obtain a where a: "a \<in> set (wave_nodes w)" "node_id a = node_id n"
    and val: "dict_get ?res (node_id n)
                = Some (commit_result (fst (execute_node ev a (wave_context w))))"
    unfolding wave_inv_def wj by blast
  from dw have "inj_on node_id (set (wave_nodes w))"
    by (simp add: distinct_map)
  with a n have "a = n"
    by (auto dest: inj_onD)
  with val have stored: "dict_get ?res (node_id n)
                = Some (commit_result (fst (execute_node ev n (wave_context w))))"
    by simp
  have ex: "\<forall>m\<in>set (wave_nodes w). node_id m \<in> executed ?st"
    using wave_ids_in_all [OF j] by (auto simp: E wj wave_ids_def)
  have ret: "fst (execute_workflow ev c ui sid) = Inr (finish ev c ?st)"
    using v by (simp add: execute_workflow_valid)
  have res: "results (final_context (finish ev c ?st)) = ?res"
    by (simp add: finish_def Let_def)
  have sched: "\<forall>ev'. map wave_nodes (snd (execute_workflow ev' c ui sid))
                 = map wave_nodes (snd (execute_workflow ev c ui sid))"
    using v schedule_of_run [of _ c ui sid ev] by (simp add: trace_of_execute_workflow)
  from stored ex ret res sched show ?thesis
    by simp
qed

theorem failures_are_recorded_witness:
  "valid (validate_workflow kb_chain)
   \<and> fst (execute_node echo_env (plain_node ''k'' ''knowledge_base'')
          (wave_context (snd (execute_workflow echo_env kb_chain ''hello'' None) ! 1)))
       = Inl ''retrieval failed''
   \<and> dict_get (results (ctx (run_waves echo_env kb_chain ''hello'' None))) (Some ''k'')
       = Some (ErrorResult ''retrieval failed'')
   \<and> Some ''k'' \<in> executed (run_waves echo_env kb_chain ''hello'' None)
   \<and> map wave_nodes (snd (execute_workflow answering_env kb_chain ''hello'' None))
       = map wave_nodes (snd (execute_workflow echo_env kb_chain ''hello'' None))
   \<and> length (snd (execute_workflow echo_env kb_chain ''hello'' None)) = 3"
proof -
  let ?ws = "snd (execute_workflow echo_env kb_chain ''hello'' None)"
  let ?k = "plain_node ''k'' ''knowledge_base''"
  have v: "valid (validate_workflow kb_chain)"
    by code_simp
  have d: "distinct (map node_id (nodes kb_chain))"
    by (simp add: kb_chain_def plain_node_def)
  have len: "length ?ws = 3"
    by code_simp
  then have w: "?ws ! 1 \<in> set ?ws"
    by simp
  have wave: "wave_nodes (?ws ! 1) = [?k]"
    by code_simp
  then have n: "?k \<in> set (wave_nodes (?ws ! 1))"
    by simp
  have fails: "fst (execute_node echo_env ?k (wave_context (?ws ! 1))) = Inl ''retrieval failed''"
    by code_simp
  note inst = failures_are_recorded [OF v d w n]
  from inst [THEN conjunct1, rule_format, OF fails]
  have stored: "dict_get (results (ctx (run_waves echo_env kb_chain ''hello'' None))) (Some ''k'')
       = Some (ErrorResult ''retrieval failed'')"
    by (simp add: plain_node_def)
  from inst [THEN conjunct2, THEN conjunct2, THEN conjunct1, rule_format, OF n]
  have ex: "Some ''k'' \<in> executed (run_waves echo_env kb_chain ''hello'' None)"
    by (simp add: plain_node_def)
  note sched = inst [THEN conjunct2, THEN conjunct2, THEN conjunct2, THEN conjunct2,
      THEN conjunct2, rule_format, of answering_env]
  from v fails stored ex sched len show ?thesis
    by blast
qed

text \<open>
  C3 as stated fails on the shape of the record: line 159 stores \<^verbatim>\<open>{"error": str(result)}\<close>,
  so \<^verbatim>\<open>.get("type")\<close> of the stored value is \<^verbatim>\<open>None\<close> and not \<^verbatim>\<open>"error"\<close>.
\<close>

theorem error_record_has_no_type_counterexample:
  "fst (execute_node echo_env (plain_node ''k'' ''knowledge_base'')
          (wave_context (snd (execute_workflow echo_env kb_chain ''hello'' None) ! 1)))
     = Inl ''retrieval failed''
   \<and> dict_get (results (ctx (run_waves echo_env kb_chain ''hello'' None))) (Some ''k'')
       = Some (ErrorResult ''retrieval failed'')
   \<and> map_option result_type
        (dict_get (results (ctx (run_waves echo_env kb_chain ''hello'' None))) (Some ''k''))
       \<noteq> Some (Some ''error'')"
  by code_simp

section \<open>Dependency ordering\<close>

text \<open>
  C4. Let \<open>e\<close> be an edge between declared node ids, and let \<open>b\<close>, a node with the id of
  the target, be in wave \<open>j\<close> of a run. Then an earlier wave \<open>i\<close> has a node \<open>a\<close> with the id
  of the source, and the context the handlers of wave \<open>j\<close> are started with holds, under
  that id, what was committed for \<open>a\<close>: its result, or the error record of its failure.
\<close>

theorem dependency_ordering:
  assumes e: "e \<in> set (edges c)"
    and src: "source e \<in> node_id ` set (nodes c)"
    and tgt: "target e \<in> node_id ` set (nodes c)"
    and j: "j < length (snd (execute_workflow ev c ui sid))"
    and b: "b \<in> set (wave_nodes (snd (execute_workflow ev c ui sid) ! j))"
    and bt: "node_id b = target e"
  shows "\<exists>i<j. \<exists>a\<in>set (wave_nodes (snd (execute_workflow ev c ui sid) ! i)).
           node_id a = source e
           \<and> dict_get (results (wave_context (snd (execute_workflow ev c ui sid) ! j))) (source e)
               = Some (commit_result
                   (fst (execute_node ev a
                      (wave_context (snd (execute_workflow ev c ui sid) ! i)))))"
proof -
  let ?g = "build_execution_graph (nodes c) (edges c)"
  let ?st = "run_waves ev c ui sid"
  let ?ws = "snd (execute_workflow ev c ui sid)"
  let ?res = "results (ctx ?st)"
  from j have v: "valid (validate_workflow c)"
    by (auto simp: trace_of_execute_workflow split: if_splits)
  then have ws: "?ws = trace ?st"
    by (simp add: trace_of_execute_workflow)
  have inv: "loop_inv ev (nodes c) ?g ?st"
    by (rule loop_inv_run_waves)
  then have W: "\<forall>j<length ?ws. wave_inv ev ?g ?ws ?res j"
    by (simp add: loop_inv_def ws)
  from W j have Wj: "wave_inv ev ?g ?ws ?res j"
    by blast
  have dep: "source e \<in> set (dependencies_of ?g (node_id b))"
    unfolding bt by (rule build_execution_graph_edge [OF e src tgt])
  from Wj b have "set (dependencies_of ?g (node_id b)) \<subseteq> ids_before ?ws j"
    unfolding wave_inv_def by blast
  with dep have before: "source e \<in> ids_before ?ws j"
    by blast
  then obtain i where i: "i < j" "i < length ?ws" and k: "source e \<in> wave_ids (?ws ! i)"
    unfolding ids_before_nth by blast
  from W i(2) have Wi: "wave_inv ev ?g ?ws ?res i"
    by blast
  from Wi k obtain a where a: "a \<in> set (wave_nodes (?ws ! i))" "node_id a = source e"
    and val: "dict_get ?res (source e)
                = Some (commit_result (fst (execute_node ev a (wave_context (?ws ! i)))))"
    unfolding wave_inv_def by blast
  from Wj before
  have "dict_get (results (wave_context (?ws ! j))) (source e) = dict_get ?res (source e)"
    unfolding wave_inv_def by blast
  with val have "dict_get (results (wave_context (?ws ! j))) (source e)
                   = Some (commit_result (fst (execute_node ev a (wave_context (?ws ! i)))))"
    by simp
  with i(1) a show ?thesis
    by blast
qed


theorem dependency_ordering_witness:
  "link ''l'' ''o'' \<in> set (edges chain3)
   \<and> wave_nodes (snd (execute_workflow echo_env chain3 ''hello'' None) ! 2)
       = [plain_node ''o'' ''output'']
   \<and> (\<exists>i<2. \<exists>a\<in>set (wave_nodes (snd (execute_workflow echo_env chain3 ''hello'' None) ! i)).
          node_id a = Some ''l''
          \<and> dict_get
               (results (wave_context (snd (execute_workflow echo_env chain3 ''hello'' None) ! 2)))
               (Some ''l'')
              = Some (commit_result
                  (fst (execute_node echo_env a
                     (wave_context
                        (snd (execute_workflow echo_env chain3 ''hello'' None) ! i))))))"
proof -
  let ?ws = "snd (execute_workflow echo_env chain3 ''hello'' None)"
  have e: "link ''l'' ''o'' \<in> set (edges chain3)"
    by (simp add: chain3_def)
  have src: "source (link ''l'' ''o'') \<in> node_id ` set (nodes chain3)"
    and tgt: "target (link ''l'' ''o'') \<in> node_id ` set (nodes chain3)"
    by (simp_all add: chain3_def link_def plain_node_def)
  have len: "2 < length ?ws"
    by code_simp
  have wave: "wave_nodes (?ws ! 2) = [plain_node ''o'' ''output'']"
    by code_simp
  then have b: "plain_node ''o'' ''output'' \<in> set (wave_nodes (?ws ! 2))"
    by simp
  have bt: "node_id (plain_node ''o'' ''output'') = target (link ''l'' ''o'')"
    by (simp add: link_def plain_node_def)
  from dependency_ordering [OF e src tgt len b bt]
  have "\<exists>i<2. \<exists>a\<in>set (wave_nodes (?ws ! i)).
          node_id a = Some ''l''
          \<and> dict_get (results (wave_context (?ws ! 2))) (Some ''l'')
              = Some (commit_result
                  (fst (execute_node echo_env a (wave_context (?ws ! i)))))"
    by (simp add: link_def)
  with e wave show ?thesis
    by blast
qed

section \<open>A stalled run\<close>

text \<open>
  C5. Let a validated configuration be run, and let a declared node be left unexecuted
  when the loop ends. Then \<open>execute_workflow\<close> returns a result and no error; the loop
  ended on an empty ready list; the id of every unexecuted node is absent from the results
  of the returned context; the output is made of the stored results of the executed
  output nodes only, in declaration order; and the summary's count of executed nodes is
  the number of executed ids and is strictly below its total, the number of nodes.
\<close>

theorem stall_returns_partial_result:
  assumes v: "valid (validate_workflow c)"
    and stall: "\<exists>n\<in>set (nodes c). node_id n \<notin> executed (run_waves ev c ui sid)"
  shows
    "fst (execute_workflow ev c ui sid) = Inr (finish ev c (run_waves ev c ui sid))
     \<and> ready_nodes (build_execution_graph (nodes c) (edges c))
          (executed (run_waves ev c ui sid)) (nodes c) = []
     \<and> (\<forall>n\<in>set (nodes c). node_id n \<notin> executed (run_waves ev c ui sid) \<longrightarrow>
           dict_get (results (final_context (finish ev c (run_waves ev c ui sid)))) (node_id n)
             = None)
     \<and> exec_output (finish ev c (run_waves ev c ui sid))
         = map (\<lambda>n. the (dict_get (results (ctx (run_waves ev c ui sid))) (node_id n)))
             (filter (\<lambda>n. marked_as OUTPUT n \<and> node_id n \<in> executed (run_waves ev c ui sid))
                (nodes c))
     \<and> executed_nodes (summary (finish ev c (run_waves ev c ui sid)))
         = card (executed (run_waves ev c ui sid))
     \<and> total_nodes (summary (finish ev c (run_waves ev c ui sid))) = length (nodes c)
     \<and> executed_nodes (summary (finish ev c (run_waves ev c ui sid)))
         < total_nodes (summary (finish ev c (run_waves ev c ui sid)))"
proof -
  let ?g = "build_execution_graph (nodes c) (edges c)"
  let ?st = "run_waves ev c ui sid"
  have inv: "loop_inv ev (nodes c) ?g ?st"
    by (rule loop_inv_run_waves)
  then have K: "set (dict_keys (results (ctx ?st))) = executed ?st"
    by (simp add: loop_inv_def)
  have sub: "executed ?st \<subseteq> node_id ` set (nodes c)"
    unfolding run_waves_def by (rule executed_subset_ids) (simp add: initial_state_def)
  from stall obtain n where n: "n \<in> set (nodes c)" "node_id n \<notin> executed ?st"
    by blast
  have lt: "card (executed ?st) < length (nodes c)"
    by (rule unexecuted_card [OF sub n])
  have a: "fst (execute_workflow ev c ui sid) = Inr (finish ev c ?st)"
    using v by (simp add: execute_workflow_valid)
  have b: "ready_nodes ?g (executed ?st) (nodes c) = []"
    using lt unfolding run_waves_def by (rule wave_loop_exit)
  have d: "\<forall>n\<in>set (nodes c). node_id n \<notin> executed ?st \<longrightarrow>
           dict_get (results (final_context (finish ev c ?st))) (node_id n) = None"
    using K by (simp add: finish_def Let_def dict_get_None_iff)
  have e: "exec_output (finish ev c ?st)
         = map (\<lambda>n. the (dict_get (results (ctx ?st)) (node_id n)))
             (filter (\<lambda>n. marked_as OUTPUT n \<and> node_id n \<in> executed ?st) (nodes c))"
    by (simp add: finish_def Let_def final_output_eq K)
  have f: "executed_nodes (summary (finish ev c ?st)) = card (executed ?st)"
    and g: "total_nodes (summary (finish ev c ?st)) = length (nodes c)"
    by (simp_all add: finish_def Let_def)
  from a b d e f g lt show ?thesis
    by simp
qed

theorem stall_returns_partial_result_witness:
  "valid (validate_workflow stalled)
   \<and> plain_node ''o'' ''output'' \<in> set (nodes stalled)
   \<and> Some ''o'' \<notin> executed (run_waves echo_env stalled ''hello'' None)
   \<and> fst (execute_workflow echo_env stalled ''hello'' None)
       = Inr (finish echo_env stalled (run_waves echo_env stalled ''hello'' None))
   \<and> dict_get (results (final_context
          (finish echo_env stalled (run_waves echo_env stalled ''hello'' None)))) (Some ''o'')
       = None
   \<and> executed_nodes (summary (finish echo_env stalled (run_waves echo_env stalled ''hello'' None)))
       < 3"
proof -
  let ?st = "run_waves echo_env stalled ''hello'' None"
  have v: "valid (validate_workflow stalled)"
    by code_simp
  have mem: "plain_node ''o'' ''output'' \<in> set (nodes stalled)"
    by (simp add: stalled_def)
  have ex: "executed ?st = {Some ''q''}"
    by code_simp
  then have out: "Some ''o'' \<notin> executed ?st"
    by simp
  have stall: "\<exists>n\<in>set (nodes stalled). node_id n \<notin> executed ?st"
    using mem out by (intro bexI [of _ "plain_node ''o'' ''output''"]) (simp_all add: plain_node_def)
  note inst = stall_returns_partial_result [OF v stall]
  note a = inst [THEN conjunct1]
  note d = inst [THEN conjunct2, THEN conjunct2, THEN conjunct1, rule_format, OF mem]
  note g = inst [THEN conjunct2, THEN conjunct2, THEN conjunct2, THEN conjunct2,
      THEN conjunct2, THEN conjunct1]
  note h = inst [THEN conjunct2, THEN conjunct2, THEN conjunct2, THEN conjunct2,
      THEN conjunct2, THEN conjunct2]
  have d': "dict_get (results (final_context (finish echo_env stalled ?st))) (Some ''o'') = None"
    using d out by (simp add: plain_node_def)
  have h': "executed_nodes (summary (finish echo_env stalled ?st)) < 3"
    using h g by (simp add: stalled_def)
  from v mem out a d' h' show ?thesis
    by blast
qed

section \<open>The request of the llm_engine handler\<close>




section \<open>The output handler\<close>

text \<open>
  C7. For a node whose effective type is output, the handler does not fail, invokes no
  collaborator, and returns a result whose content is the contents of the results of
  type llm_response in \<^verbatim>\<open>context["results"]\<close>, in the order of the dictionary, joined by
  a blank line; when there is no such result the content is "No output generated".
\<close>

theorem output_handler_aggregates:
  assumes "effective_type n = Some ''output''"
  shows "execute_node ev n cx =
           (Inr (OutputResult
                  (if list_ex (\<lambda>r. result_type r = Some ''llm_response'')
                        (dict_values (results cx))
                   then str_join ''\<newline>\<newline>''
                          (map result_content
                             (filter (\<lambda>r. result_type r = Some ''llm_response'')
                                (dict_values (results cx))))
                   else ''No output generated'')
                  (utcnow ev)),
            [])"
proof -
  have "llm_contents (results cx) \<noteq> [] \<longleftrightarrow>
          list_ex (\<lambda>r. result_type r = Some ''llm_response'') (dict_values (results cx))"
    by (auto simp: llm_contents_def list_ex_iff filter_empty_conv)
  then show ?thesis
    using assms by (simp add: execute_node_output execute_output_def llm_contents_def Let_def)
qed

theorem output_handler_aggregates_witness:
  "effective_type (plain_node ''o'' ''output'') = Some ''output''
   \<and> execute_node echo_env (plain_node ''o'' ''output'') (base_context mixed_results)
       = (Inr (OutputResult ''A\<newline>\<newline>B'' ''2024-01-01T00:00:00''), [])
   \<and> execute_node echo_env (plain_node ''o'' ''output'') (base_context [])
       = (Inr (OutputResult ''No output generated'' ''2024-01-01T00:00:00''), [])"
proof -
  have ty: "effective_type (plain_node ''o'' ''output'') = Some ''output''"
    by (simp add: effective_type_def plain_node_def)
  have a: "execute_node echo_env (plain_node ''o'' ''output'') (base_context mixed_results)
       = (Inr (OutputResult ''A\<newline>\<newline>B'' ''2024-01-01T00:00:00''), [])"
    using output_handler_aggregates [OF ty, of echo_env "base_context mixed_results"]
    by (simp add: base_context_def mixed_results_def dict_values_def echo_env_def)
  have b: "execute_node echo_env (plain_node ''o'' ''output'') (base_context [])
       = (Inr (OutputResult ''No output generated'' ''2024-01-01T00:00:00''), [])"
    using output_handler_aggregates [OF ty, of echo_env "base_context []"]
    by (simp add: base_context_def dict_values_def echo_env_def)
  from ty a b show ?thesis by simp
qed

section \<open>Termination of the wave loop\<close>

text \<open>
  C9. For a configuration that passes validation, \<open>execute_workflow\<close> returns a result
  (the loop is a total function). The body of the loop is entered at most as many times
  as there are nodes, and every wave belongs to one entry of the body. The executed set
  stays within the declared node ids. One entry of the body either finds no ready node
  and leaves the loop, or runs a wave that makes the executed set strictly larger and
  goes on from there; when the executed set has as many elements as there are nodes the
  loop is left at once.
\<close>

theorem wave_loop_terminates:
  assumes "valid (validate_workflow c)"
  shows
    "execute_workflow ev c ui sid
       = (Inr (finish ev c (run_waves ev c ui sid)), trace (run_waves ev c ui sid))
     \<and> iterations (run_waves ev c ui sid) \<le> length (nodes c)
     \<and> length (trace (run_waves ev c ui sid)) \<le> iterations (run_waves ev c ui sid)
     \<and> executed (run_waves ev c ui sid) \<subseteq> node_id ` set (nodes c)
     \<and> (\<forall>g st. card (executed st) < length (nodes c) \<longrightarrow>
           (ready_nodes g (executed st) (nodes c) = []
            \<and> wave_loop ev (nodes c) g st = st\<lparr> iterations := Suc (iterations st) \<rparr>)
           \<or> (ready_nodes g (executed st) (nodes c) \<noteq> []
               \<and> executed st
                   \<subset> executed (run_wave ev (ready_nodes g (executed st) (nodes c))
                                (st\<lparr> iterations := Suc (iterations st) \<rparr>))
               \<and> wave_loop ev (nodes c) g st
                   = wave_loop ev (nodes c) g
                       (run_wave ev (ready_nodes g (executed st) (nodes c))
                          (st\<lparr> iterations := Suc (iterations st) \<rparr>))))
     \<and> (\<forall>g st. \<not> card (executed st) < length (nodes c) \<longrightarrow>
           wave_loop ev (nodes c) g st = st)"
proof (intro conjI allI impI)
  let ?g = "build_execution_graph (nodes c) (edges c)"
  let ?st0 = "initial_state ev c ui sid"
  show "execute_workflow ev c ui sid
       = (Inr (finish ev c (run_waves ev c ui sid)), trace (run_waves ev c ui sid))"
    using assms by (rule execute_workflow_valid)
  have "iterations (wave_loop ev (nodes c) ?g ?st0)
          \<le> iterations ?st0 + (length (nodes c) - card (executed ?st0))"
    by (rule iterations_bound) (simp add: initial_state_def)
  then show "iterations (run_waves ev c ui sid) \<le> length (nodes c)"
    by (simp add: run_waves_def initial_state_def)
  from waves_bound [of ev "nodes c" ?g ?st0]
  show "length (trace (run_waves ev c ui sid)) \<le> iterations (run_waves ev c ui sid)"
    by (simp add: run_waves_def initial_state_def)
  show "executed (run_waves ev c ui sid) \<subseteq> node_id ` set (nodes c)"
    unfolding run_waves_def by (rule executed_subset_ids) (simp add: initial_state_def)
next
  fix g and st :: loop_state
  assume lt: "card (executed st) < length (nodes c)"
  show "(ready_nodes g (executed st) (nodes c) = []
            \<and> wave_loop ev (nodes c) g st = st\<lparr> iterations := Suc (iterations st) \<rparr>)
           \<or> (ready_nodes g (executed st) (nodes c) \<noteq> []
               \<and> executed st
                   \<subset> executed (run_wave ev (ready_nodes g (executed st) (nodes c))
                                (st\<lparr> iterations := Suc (iterations st) \<rparr>))
               \<and> wave_loop ev (nodes c) g st
                   = wave_loop ev (nodes c) g
                       (run_wave ev (ready_nodes g (executed st) (nodes c))
                          (st\<lparr> iterations := Suc (iterations st) \<rparr>)))"
  proof (cases "ready_nodes g (executed st) (nodes c) = []")
    case True
    with lt show ?thesis by (subst wave_loop_step) simp
  next
    case False
    have "executed st
            \<subset> executed (run_wave ev (ready_nodes g (executed st) (nodes c))
                         (st\<lparr> iterations := Suc (iterations st) \<rparr>))"
      by (rule run_wave_strict [OF False]) simp
    moreover have "wave_loop ev (nodes c) g st
                   = wave_loop ev (nodes c) g
                       (run_wave ev (ready_nodes g (executed st) (nodes c))
                          (st\<lparr> iterations := Suc (iterations st) \<rparr>))"
      using lt False by (subst wave_loop_step) simp
    ultimately show ?thesis using False by blast
  qed
next
  fix g and st :: loop_state
  assume "\<not> card (executed st) < length (nodes c)"
  then show "wave_loop ev (nodes c) g st = st"
    by (subst wave_loop_step) simp
qed

theorem wave_loop_terminates_witness:
  "valid (validate_workflow chain3)
   \<and> fst (execute_workflow echo_env chain3 ''hello'' None)
       = Inr (finish echo_env chain3 (run_waves echo_env chain3 ''hello'' None))
   \<and> iterations (run_waves echo_env chain3 ''hello'' None) \<le> 3
   \<and> length (trace (run_waves echo_env chain3 ''hello'' None))
       \<le> iterations (run_waves echo_env chain3 ''hello'' None)"
proof -
  have v: "valid (validate_workflow chain3)"
    by code_simp
  have len: "length (nodes chain3) = 3"
    by (simp add: chain3_def)
  note inst = wave_loop_terminates [OF v, of echo_env "''hello''" None]
  from inst [THEN conjunct1]
  have a: "fst (execute_workflow echo_env chain3 ''hello'' None)
       = Inr (finish echo_env chain3 (run_waves echo_env chain3 ''hello'' None))"
    by simp
  from inst [THEN conjunct2, THEN conjunct1] len
  have b: "iterations (run_waves echo_env chain3 ''hello'' None) \<le> 3"
    by simp
  note d = inst [THEN conjunct2, THEN conjunct2, THEN conjunct1]
  from v a b d show ?thesis by blast
qed

section \<open>The presence checks of the validator and the dispatch\<close>

text \<open>
  C10. The validator's checks for a user_query node and for an output node do not unwrap:
  a node counts when its top-level type or its \<^verbatim>\<open>data.type\<close> is the kind, whatever the
  top-level type is. So a node whose top-level type is a concrete type other than the
  wrapper marker and whose \<^verbatim>\<open>data.type\<close> is output satisfies the output check, while the
  dispatch runs it under its top-level type and does not look at \<^verbatim>\<open>data.type\<close>. The
  configuration \<open>marker_only\<close> is such a one: it passes validation, and no node of it has
  the effective type output.
\<close>

theorem presence_checks_skip_unwrapping:
  "(has_input ns \<longleftrightarrow>
      (\<exists>n\<in>set ns. node_type n = Some ''user_query'' \<or> data_type n = Some ''user_query''))
   \<and> (has_output ns \<longleftrightarrow>
      (\<exists>n\<in>set ns. node_type n = Some ''output'' \<or> data_type n = Some ''output''))
   \<and> (\<forall>n\<in>set ns. \<forall>t.
         node_type n = Some t \<and> t \<noteq> ''custom'' \<and> data_type n = Some ''output''
         \<longrightarrow> has_output ns
             \<and> effective_type n = Some t
             \<and> (\<forall>d. execute_node ev (n\<lparr>data_type := d\<rparr>) cx = execute_node ev n cx))
   \<and> valid (validate_workflow marker_only)
   \<and> \<not> spec_has_kind ''output'' (nodes marker_only)
   \<and> map node_type (nodes marker_only) = [Some ''user_query'', Some ''llm_engine'']
   \<and> map effective_type (nodes marker_only) = [Some ''user_query'', Some ''llm_engine'']"
proof (intro conjI ballI allI impI)
  show "has_input ns \<longleftrightarrow>
      (\<exists>n\<in>set ns. node_type n = Some ''user_query'' \<or> data_type n = Some ''user_query'')"
    by (rule has_input_iff)
  show "has_output ns \<longleftrightarrow>
      (\<exists>n\<in>set ns. node_type n = Some ''output'' \<or> data_type n = Some ''output'')"
    by (rule has_output_iff)
  show "valid (validate_workflow marker_only)"
    by code_simp
  show "\<not> spec_has_kind ''output'' (nodes marker_only)"
    by code_simp
  show "map node_type (nodes marker_only) = [Some ''user_query'', Some ''llm_engine'']"
    by (simp add: marker_only_def plain_node_def)
  show "map effective_type (nodes marker_only) = [Some ''user_query'', Some ''llm_engine'']"
    by (simp add: marker_only_def plain_node_def effective_type_def)
next
  fix n t
  assume n: "n \<in> set ns"
    and h: "node_type n = Some t \<and> t \<noteq> ''custom'' \<and> data_type n = Some ''output''"
  from n h show "has_output ns"
    unfolding has_output_iff by blast
  from h show "effective_type n = Some t"
    by (simp add: effective_type_def)
  fix d
  from h show "execute_node ev (n\<lparr>data_type := d\<rparr>) cx = execute_node ev n cx"
    by (intro execute_node_ignores_data_type) simp
qed

theorem presence_checks_skip_unwrapping_witness:
  "has_output (nodes marker_only)
   \<and> effective_type (nodes marker_only ! 1) = Some ''llm_engine''
   \<and> execute_node echo_env ((nodes marker_only ! 1)\<lparr>data_type := None\<rparr>) (base_context [])
       = execute_node echo_env (nodes marker_only ! 1) (base_context [])
   \<and> snd (execute_node echo_env (nodes marker_only ! 1) (base_context []))
       = [CompletionCall (llm_request (nodes marker_only ! 1) (base_context []) OPENAI)]
   \<and> valid (validate_workflow marker_only)"
proof -
  let ?x = "nodes marker_only ! 1"
  note inst = presence_checks_skip_unwrapping [of "nodes marker_only" echo_env "base_context []"]
  note gen = inst [THEN conjunct2, THEN conjunct2, THEN conjunct1, rule_format]
  note ok = inst [THEN conjunct2, THEN conjunct2, THEN conjunct2, THEN conjunct1]
  have mem: "?x \<in> set (nodes marker_only)"
    by (simp add: marker_only_def)
  have h: "node_type ?x = Some ''llm_engine'' \<and> ''llm_engine'' \<noteq> ''custom''
             \<and> data_type ?x = Some ''output''"
    by (simp add: marker_only_def)
  note at_x = gen [OF mem h]
  have eff: "effective_type ?x = Some ''llm_engine''"
    using at_x by blast
  have "snd (execute_node echo_env ?x (base_context []))
       = [CompletionCall (llm_request ?x (base_context []) OPENAI)]"
  proof -
    have "model (config ?x) = Absent"
      by (simp add: marker_only_def empty_config_def)
    from llm_provider_absent [OF this, of echo_env]
    have "llm_provider echo_env (config ?x) = Inr OPENAI"
      by (simp add: echo_env_def ascii_lower_def)
    from execute_llm_engine_calls [OF this] eff show ?thesis
      by (simp add: execute_node_llm)
  qed
  with at_x ok show ?thesis by blast
qed

end
